theory Spec2Isabelle
  imports Complex_Main "HOL-Library.Multiset"
begin

section \<open>JavaScript values\<close>

text \<open>
  The backend (\<^verbatim>\<open>src/backend/index.js\<close>) receives decoded JSON bodies from the market-data
  provider and from the AI provider and reshapes them. A body is modelled as the JavaScript
  value it decodes to. \<open>JUndefined\<close> is what reading a missing property gives. Numbers are
  the finite numbers a JSON text can carry, as rationals. A string is the list of the bytes
  of its text in UTF-8; an object keeps its properties in order, each key once.
\<close>

datatype jsval =
    JUndefined
  | JNull
  | JBool bool
  | JNum rat
  | JStr string
  | JArr "jsval list"
  | JObj "(string \<times> jsval) list"

text \<open>Truthiness, as \<^verbatim>\<open>!v\<close>, \<^verbatim>\<open>a || b\<close> and \<^verbatim>\<open>if (v)\<close> test it.\<close>

fun truthy :: "jsval \<Rightarrow> bool" where
  "truthy JUndefined = False"
| "truthy JNull = False"
| "truthy (JBool b) = b"
| "truthy (JNum n) = (n \<noteq> 0)"
| "truthy (JStr s) = (s \<noteq> [])"
| "truthy (JArr xs) = True"
| "truthy (JObj kvs) = True"

fun nullish :: "jsval \<Rightarrow> bool" where
  "nullish JUndefined = True"
| "nullish JNull = True"
| "nullish v = False"

text \<open>\<^verbatim>\<open>a || b\<close> and \<^verbatim>\<open>a ?? b\<close>.\<close>

definition js_or :: "jsval \<Rightarrow> jsval \<Rightarrow> jsval" where
  "js_or a b = (if truthy a then a else b)"

definition js_coalesce :: "jsval \<Rightarrow> jsval \<Rightarrow> jsval" where
  "js_coalesce a b = (if nullish a then b else a)"

text \<open>
  The \<^verbatim>\<open>length\<close> of a string counts UTF-16 code units: one for each character, which is one
  for each byte that is not a continuation byte, and one more for each character that takes
  four bytes.
\<close>

definition is_continuation :: "char \<Rightarrow> bool" where
  "is_continuation c = (digit7 c \<and> \<not> digit6 c)"

definition is_lead4 :: "char \<Rightarrow> bool" where
  "is_lead4 c = (digit7 c \<and> digit6 c \<and> digit5 c \<and> digit4 c)"

definition utf16_length :: "string \<Rightarrow> nat" where
  "utf16_length s = length (filter (\<lambda>c. \<not> is_continuation c) s) + length (filter is_lead4 s)"

text \<open>
  \<^verbatim>\<open>v.k\<close> for a value \<open>v\<close> that is neither \<^verbatim>\<open>null\<close> nor \<^verbatim>\<open>undefined\<close>, for the property names
  the handlers read: an object gives the property or \<^verbatim>\<open>undefined\<close>; an array and a string
  have \<^verbatim>\<open>length\<close>; every other read gives \<^verbatim>\<open>undefined\<close>.
\<close>

fun field :: "jsval \<Rightarrow> string \<Rightarrow> jsval" where
  "field (JObj kvs) k = (case map_of kvs k of Some v \<Rightarrow> v | None \<Rightarrow> JUndefined)"
| "field (JArr xs) k = (if k = ''length'' then JNum (of_nat (length xs)) else JUndefined)"
| "field (JStr s) k = (if k = ''length'' then JNum (of_nat (utf16_length s)) else JUndefined)"
| "field v k = JUndefined"

text \<open>\<^verbatim>\<open>v?.k\<close>: \<^verbatim>\<open>undefined\<close> when \<open>v\<close> is \<^verbatim>\<open>null\<close> or \<^verbatim>\<open>undefined\<close>.\<close>

definition opt :: "jsval \<Rightarrow> string \<Rightarrow> jsval" where
  "opt v k = (if nullish v then JUndefined else field v k)"

text \<open>\<^verbatim>\<open>v?.[0]\<close>. On a string it is the first character (for a character of four bytes the
  language gives the first half of its surrogate pair, which has no text of its own; the
  handlers read from it only properties that no string has).\<close>

fun opt_first :: "jsval \<Rightarrow> jsval" where
  "opt_first (JArr (x # xs)) = x"
| "opt_first (JStr (c # cs)) = JStr (c # takeWhile is_continuation cs)"
| "opt_first (JObj kvs) = field (JObj kvs) ''0''"
| "opt_first v = JUndefined"

text \<open>\<^verbatim>\<open>Object.keys(v).length\<close> for a truthy \<open>v\<close>: the keys of an object, the indices of an array
  or a string, nothing for a number or a boolean.\<close>

fun keys_length :: "jsval \<Rightarrow> nat" where
  "keys_length (JObj kvs) = length kvs"
| "keys_length (JArr xs) = length xs"
| "keys_length (JStr s) = utf16_length s"
| "keys_length v = 0"

text \<open>
  Converting a value to a primitive, as \<^verbatim>\<open>Number(v)\<close>, \<^verbatim>\<open>x - y\<close> and a template \<^verbatim>\<open>`${v}`\<close> do,
  throws a TypeError for some decoded values. An object inherits a \<^verbatim>\<open>toString\<close> that gives a
  string, unless it has a property of that name of its own, which in a decoded body is never
  a function; the inherited \<^verbatim>\<open>valueOf\<close> gives the object back, so nothing else can be tried.
  An array is joined from the conversions of its elements (\<^verbatim>\<open>null\<close> gives the empty string).
\<close>

fun to_primitive_throws :: "jsval \<Rightarrow> bool" where
  "to_primitive_throws (JObj kvs) = (''toString'' \<in> fst ` set kvs)"
| "to_primitive_throws (JArr xs) = (\<exists>x\<in>set xs. to_primitive_throws x)"
| "to_primitive_throws v = False"

section \<open>Strings\<close>

text \<open>
  \<^verbatim>\<open>String.prototype.toUpperCase\<close> on a string of ASCII characters: the letters a to z become
  A to Z and every other character is kept. The quote handler applies it to a symbol that has
  passed validation, which is such a string.
\<close>

definition upper_char :: "char \<Rightarrow> char" where
  "upper_char c =
     (case map_of (zip ''abcdefghijklmnopqrstuvwxyz'' ''ABCDEFGHIJKLMNOPQRSTUVWXYZ'') c of
        Some u \<Rightarrow> u
      | None \<Rightarrow> c)"

definition toUpperCase :: "string \<Rightarrow> string" where
  "toUpperCase s = map upper_char s"

text \<open>
  \<^verbatim>\<open>String.prototype.toUpperCase\<close> on any string. On text with a character outside ASCII the
  language follows the case mappings of Unicode, which also change the length (U+00DF becomes
  SS); they are the parameter \<open>upper\<close>. The routes that do not validate their symbol apply
  this one.
\<close>

definition is_ascii :: "string \<Rightarrow> bool" where
  "is_ascii s = list_all (\<lambda>c. \<not> digit7 c) s"

definition toUpperCase_text :: "(string \<Rightarrow> string) \<Rightarrow> string \<Rightarrow> string" where
  "toUpperCase_text upper s = (if is_ascii s then toUpperCase s else upper s)"

text \<open>
  \<^verbatim>\<open>String.prototype.trim\<close> removes the white space and the line terminators of the language
  from both ends: U+0009 to U+000D, U+0020, U+00A0, U+1680, U+2000 to U+200A, U+2028, U+2029,
  U+202F, U+205F, U+3000 and U+FEFF, listed here in UTF-8.
\<close>

definition white_space :: "string list" where
  "white_space =
     [[CHR 0x09], [CHR 0x0A], [CHR 0x0B], [CHR 0x0C], [CHR 0x0D], [CHR 0x20],
      [CHR 0xC2, CHR 0xA0],
      [CHR 0xE1, CHR 0x9A, CHR 0x80],
      [CHR 0xE2, CHR 0x80, CHR 0x80], [CHR 0xE2, CHR 0x80, CHR 0x81], [CHR 0xE2, CHR 0x80, CHR 0x82],
      [CHR 0xE2, CHR 0x80, CHR 0x83], [CHR 0xE2, CHR 0x80, CHR 0x84], [CHR 0xE2, CHR 0x80, CHR 0x85],
      [CHR 0xE2, CHR 0x80, CHR 0x86], [CHR 0xE2, CHR 0x80, CHR 0x87], [CHR 0xE2, CHR 0x80, CHR 0x88],
      [CHR 0xE2, CHR 0x80, CHR 0x89], [CHR 0xE2, CHR 0x80, CHR 0x8A],
      [CHR 0xE2, CHR 0x80, CHR 0xA8], [CHR 0xE2, CHR 0x80, CHR 0xA9], [CHR 0xE2, CHR 0x80, CHR 0xAF],
      [CHR 0xE2, CHR 0x81, CHR 0x9F],
      [CHR 0xE3, CHR 0x80, CHR 0x80],
      [CHR 0xEF, CHR 0xBB, CHR 0xBF]]"

text \<open>Removing, from the front of \<open>s\<close>, one of the sequences \<open>ws\<close> after the other until none
  is left there. A step removes at least one byte, so a count of steps that is the length of
  \<open>s\<close> is never used up (lemma \<open>strip_done\<close> below).\<close>

primrec strip :: "string list \<Rightarrow> nat \<Rightarrow> string \<Rightarrow> string" where
  "strip ws 0 s = s"
| "strip ws (Suc n) s =
     (case find (\<lambda>w. take (length w) s = w) ws of
        None \<Rightarrow> s
      | Some w \<Rightarrow> strip ws n (drop (length w) s))"

definition trimStart :: "string \<Rightarrow> string" where
  "trimStart s = strip white_space (length s) s"

definition trimEnd :: "string \<Rightarrow> string" where
  "trimEnd s = rev (strip (map rev white_space) (length s) (rev s))"

definition trim :: "string \<Rightarrow> string" where
  "trim s = trimEnd (trimStart s)"

section \<open>Upstream calls and responses\<close>

text \<open>
  What \<^verbatim>\<open>await axios.get(...)\<close> or \<^verbatim>\<open>await genAI.models.generateContent(...)\<close> can throw, and
  what the handlers' own code can throw on a malformed body. An \<open>AxiosError\<close> carries
  \<^verbatim>\<open>err.response.status\<close> when upstream answered.
\<close>

datatype exn = AxiosError "nat option" | AiError | TypeError

text \<open>The requests the handlers send to the market-data provider (the URL without the key).\<close>

datatype market_req =
    Snapshot_ticker string
  | Reference_ticker string
  | Aggs string nat string int int
  | Snapshot_gainers
  | Snapshot_losers
  | Snapshot_tickers_by_volume
  | News_latest
  | News_for string
  | Marketstatus_now

text \<open>The provider, as the handlers see it: a request either throws or gives \<^verbatim>\<open>res.data\<close>.\<close>

type_synonym market = "market_req \<Rightarrow> exn + jsval"

record response =
  status :: nat
  body :: jsval

definition json :: "jsval \<Rightarrow> response" where
  "json b = \<lparr>status = 200, body = b\<rparr>"

definition error_json :: "nat \<Rightarrow> string \<Rightarrow> response" where
  "error_json code msg = \<lparr>status = code, body = JObj [(''error'', JStr msg)]\<rparr>"

section \<open>GET /api/market-status\<close>

definition market_status :: "market \<Rightarrow> response" where
  "market_status up =
     (case up Marketstatus_now of
        Inl err \<Rightarrow> error_json 500 ''Failed to fetch market status''
      | Inr data \<Rightarrow>
          if nullish data then error_json 500 ''Failed to fetch market status''
          else json (JObj
            [(''status'', if field data ''market'' = JStr ''open'' then JStr ''OPEN'' else JStr ''CLOSED''),
             (''nextOpen'', field data ''nextOpen''),
             (''nextClose'', field data ''nextClose'')]))"

section \<open>Symbol validation\<close>

text \<open>
  The quote route declares
  \<^verbatim>\<open>param('symbol').isAlphanumeric().isLength({ min: 1, max: 10 }).withMessage('Invalid stock symbol')\<close>.
  The chain runs both validators and records one error for each that fails, in order;
  \<^verbatim>\<open>withMessage\<close> names the message of the validator before it only, so a failure of
  \<^verbatim>\<open>isAlphanumeric\<close> carries the library's default message. \<open>validate_symbol\<close> is the list of
  messages of \<^verbatim>\<open>validationResult(req).array()\<close>.
\<close>

definition is_alnum :: "char \<Rightarrow> bool" where
  "is_alnum c = (c \<in> set ''0123456789ABCDEFGHIJKLMNOPQRSTUVWXYZabcdefghijklmnopqrstuvwxyz'')"

definition isAlphanumeric :: "string \<Rightarrow> bool" where
  "isAlphanumeric s = (s \<noteq> [] \<and> list_all is_alnum s)"

definition isLength :: "nat \<Rightarrow> nat \<Rightarrow> string \<Rightarrow> bool" where
  "isLength lo hi s = (lo \<le> length s \<and> length s \<le> hi)"

definition validate_symbol :: "string \<Rightarrow> string list" where
  "validate_symbol symbol =
     (if isAlphanumeric symbol then [] else [''Invalid value'']) @
     (if isLength 1 10 symbol then [] else [''Invalid stock symbol''])"

section \<open>GET /api/quote/:symbol\<close>

text \<open>
  \<^verbatim>\<open>Number(v)\<close>, for a \<open>v\<close> whose conversion to a primitive does not throw (see
  \<open>to_primitive_throws\<close>): a number is itself, \<^verbatim>\<open>null\<close> is 0, a boolean is 0 or 1,
  \<^verbatim>\<open>undefined\<close> is NaN (\<open>None\<close>). A string, an array and an object go through the language's
  conversion from text, which is the parameter \<open>conv\<close>. \<^verbatim>\<open>res.json\<close> writes NaN as \<^verbatim>\<open>null\<close>.
\<close>

fun to_number :: "(jsval \<Rightarrow> rat option) \<Rightarrow> jsval \<Rightarrow> rat option" where
  "to_number conv JUndefined = None"
| "to_number conv JNull = Some 0"
| "to_number conv (JBool b) = Some (if b then 1 else 0)"
| "to_number conv (JNum n) = Some n"
| "to_number conv v = conv v"

definition js_Number :: "(jsval \<Rightarrow> rat option) \<Rightarrow> jsval \<Rightarrow> jsval" where
  "js_Number conv v = (case to_number conv v of Some n \<Rightarrow> JNum n | None \<Rightarrow> JNull)"

text \<open>The \<^verbatim>\<open>catch\<close> block of the quote handler.\<close>

definition quote_catch :: "exn \<Rightarrow> response" where
  "quote_catch err =
     (if err = AxiosError (Some 404) then error_json 404 ''Stock not found''
      else error_json 500 ''Failed to fetch quote from Polygon'')"

text \<open>The handler from line 54 on, once both upstream calls have returned;
  \<open>snapshot\<close> is \<^verbatim>\<open>snapshotRes.data?.ticker\<close> and \<open>metadata\<close> is \<^verbatim>\<open>metaRes.data?.results\<close>.
  \<^verbatim>\<open>Number(close)\<close> is the one step that can throw here; the \<^verbatim>\<open>catch\<close> block answers it.\<close>

definition quote_body :: "(jsval \<Rightarrow> rat option) \<Rightarrow> jsval \<Rightarrow> jsval \<Rightarrow> response" where
  "quote_body conv snapshot metadata =
     (if \<not> truthy snapshot \<or> keys_length snapshot = 0
      then error_json 404 ''Stock not found or no snapshot data available''
      else
        let day = js_or (field snapshot ''day'') (JObj []);
            minute = js_or (field snapshot ''min'') (JObj []);
            open_v = js_or (js_or (field day ''o'') (field minute ''o'')) (JNum 0);
            high = js_or (js_or (field day ''h'') (field minute ''h'')) (JNum 0);
            low = js_or (js_or (field day ''l'') (field minute ''l'')) (JNum 0);
            close = js_or (js_or (field day ''c'') (field minute ''c'')) (JNum 0);
            volume = js_or (js_or (field day ''v'') (field minute ''v'')) (JNum 0)
        in if to_primitive_throws close then quote_catch TypeError
           else json (JObj
          [(''symbol'', field snapshot ''ticker''),
           (''name'', js_coalesce (opt metadata ''name'') (field snapshot ''ticker'')),
           (''exchange'', js_coalesce (opt metadata ''primary_exchange'') (JStr ''NASDAQ'')),
           (''price'', js_Number conv close),
           (''volume'', volume),
           (''change'', js_coalesce (field snapshot ''todaysChange'') (JNum 0)),
           (''changePercent'', js_coalesce (field snapshot ''todaysChangePerc'') (JNum 0)),
           (''open'', open_v),
           (''prevClose'', js_coalesce (opt (field snapshot ''prevDay'') ''c'') (JNum 0)),
           (''high'', high),
           (''low'', low),
           (''avgVolume'', js_coalesce (opt metadata ''average_volume'') JNull),
           (''marketCap'', js_coalesce (opt metadata ''market_cap'') JNull),
           (''week52High'', js_coalesce (opt metadata ''week_52_high'') JNull),
           (''week52Low'', js_coalesce (opt metadata ''week_52_low'') JNull),
           (''description'', js_coalesce (opt metadata ''description'') JNull)]))"

text \<open>The whole handler: the response, and the upstream requests it has sent, in order.\<close>

definition quote :: "(jsval \<Rightarrow> rat option) \<Rightarrow> market \<Rightarrow> string \<Rightarrow> response \<times> market_req list" where
  "quote conv up symbol =
     (case validate_symbol symbol of
        msg # others \<Rightarrow> (error_json 400 msg, [])
      | [] \<Rightarrow>
          (case up (Snapshot_ticker (toUpperCase symbol)) of
             Inl err \<Rightarrow> (quote_catch err, [Snapshot_ticker (toUpperCase symbol)])
           | Inr snapshotRes \<Rightarrow>
               (case up (Reference_ticker (toUpperCase symbol)) of
                  Inl err \<Rightarrow>
                    (quote_catch err,
                     [Snapshot_ticker (toUpperCase symbol), Reference_ticker (toUpperCase symbol)])
                | Inr metaRes \<Rightarrow>
                    (quote_body conv (opt snapshotRes ''ticker'') (opt metaRes ''results''),
                     [Snapshot_ticker (toUpperCase symbol), Reference_ticker (toUpperCase symbol)]))))"

section \<open>GET /api/chart/:symbol\<close>

record interval =
  multiplier :: nat
  timespan :: string
  from_days :: nat

definition POLYGON_INTERVALS :: "(string \<times> interval) list" where
  "POLYGON_INTERVALS =
     [(''1D'', \<lparr>multiplier = 1, timespan = ''minute'', from_days = 1\<rparr>),
      (''1W'', \<lparr>multiplier = 15, timespan = ''minute'', from_days = 7\<rparr>),
      (''1M'', \<lparr>multiplier = 1, timespan = ''day'', from_days = 30\<rparr>),
      (''6M'', \<lparr>multiplier = 1, timespan = ''day'', from_days = 180\<rparr>),
      (''1Y'', \<lparr>multiplier = 1, timespan = ''day'', from_days = 365\<rparr>),
      (''ALL'', \<lparr>multiplier = 1, timespan = ''day'', from_days = 1825\<rparr>)]"

text \<open>
  \<^verbatim>\<open>(req.query.range || "1D").toUpperCase()\<close> and the lookup with its fallback. The query
  parameter is a string or is missing (\<open>None\<close>). The key looked up is in upper case, so it is
  never one of the inherited property names of an object, which all have lower-case letters.
\<close>

definition chart_range :: "(string \<Rightarrow> string) \<Rightarrow> string option \<Rightarrow> string" where
  "chart_range upper q =
     toUpperCase_text upper (case q of None \<Rightarrow> ''1D'' | Some r \<Rightarrow> if r = [] then ''1D'' else r)"

definition chart_interval :: "string \<Rightarrow> interval" where
  "chart_interval range_key =
     (case map_of POLYGON_INTERVALS range_key of
        Some cfg \<Rightarrow> cfg
      | None \<Rightarrow> \<lparr>multiplier = 1, timespan = ''minute'', from_days = 1\<rparr>)"

text \<open>
  A \<^verbatim>\<open>Date\<close> is its time value, the milliseconds since the epoch. \<^verbatim>\<open>toISOString().split("T")[0]\<close>
  is the UTC calendar date of that instant; it is modelled as the number of that day, counted
  from 1970-01-01, which the date text determines and is determined by.
\<close>

definition iso_date :: "int \<Rightarrow> int" where
  "iso_date t = t div (24 * 60 * 60 * 1000)"

definition chart ::
  "(string \<Rightarrow> string) \<Rightarrow> market \<Rightarrow> string \<Rightarrow> string option \<Rightarrow> int \<Rightarrow> response \<times> market_req list" where
  "chart upper up symbol q now =
     (let cfg = chart_interval (chart_range upper q);
          toDate = now;
          fromDate = toDate - int (from_days cfg) * 24 * 60 * 60 * 1000;
          fromStr = iso_date fromDate;
          toStr = iso_date toDate;
          request = Aggs (toUpperCase_text upper symbol) (multiplier cfg) (timespan cfg) fromStr toStr
      in case up request of
           Inl err \<Rightarrow> (error_json 500 ''Failed to fetch chart data'', [request])
         | Inr data \<Rightarrow>
             (let results = opt data ''results''
              in if \<not> truthy results \<or> field results ''length'' = JNum 0
                 then (json (JArr []), [request])
                 else (json results, [request])))"

section \<open>Selection policies and example providers\<close>

text \<open>A conversion from text that never finds a number, for the examples.\<close>

definition conv_nan :: "jsval \<Rightarrow> rat option" where
  "conv_nan v = None"

text \<open>
  The selection policy in the words of the specification, ``first non-null source wins'':
  the first candidate that is neither \<^verbatim>\<open>null\<close> nor \<^verbatim>\<open>undefined\<close>, else the default.
\<close>

definition first_non_null :: "jsval \<Rightarrow> jsval \<Rightarrow> jsval \<Rightarrow> jsval" where
  "first_non_null a b d = (if \<not> nullish a then a else if \<not> nullish b then b else d)"

text \<open>What a chain \<^verbatim>\<open>a || b || d\<close> selects: the first truthy candidate, else the default.\<close>

definition first_truthy :: "jsval \<Rightarrow> jsval \<Rightarrow> jsval \<Rightarrow> jsval" where
  "first_truthy a b d = (if truthy a then a else if truthy b then b else d)"

text \<open>A snapshot as the provider sends it before the first trade of a day: the daily bar is
  all zero, the minute bar has values.\<close>

definition zero_day_snapshot :: jsval where
  "zero_day_snapshot =
     JObj [(''ticker'', JStr ''AAPL''),
           (''day'', JObj [(''o'', JNum 0), (''h'', JNum 0), (''l'', JNum 0), (''c'', JNum 0), (''v'', JNum 0)]),
           (''min'', JObj [(''o'', JNum 5), (''h'', JNum 6), (''l'', JNum 4), (''c'', JNum 5), (''v'', JNum 100)])]"

definition zero_day_upstream :: market where
  "zero_day_upstream r = Inr (JObj [(''ticker'', zero_day_snapshot)])"

text \<open>A provider that names the ticker in lower case.\<close>

definition lower_case_upstream :: market where
  "lower_case_upstream r = Inr (JObj [(''ticker'', JObj [(''ticker'', JStr ''aapl'')])])"

text \<open>A provider that answers 404; one that cannot be reached; one whose body has no snapshot;
  one whose snapshot is the empty object; one whose body has no snapshot and whose metadata
  request fails with status 500; one that echoes the ticker it is asked for.\<close>

definition not_found_upstream :: market where
  "not_found_upstream r = Inl (AxiosError (Some 404))"

definition unreachable_upstream :: market where
  "unreachable_upstream r = Inl (AxiosError None)"

definition no_snapshot_upstream :: market where
  "no_snapshot_upstream r = Inr (JObj [(''status'', JStr ''OK'')])"

definition empty_snapshot_upstream :: market where
  "empty_snapshot_upstream r = Inr (JObj [(''ticker'', JObj [])])"

definition metadata_down_upstream :: market where
  "metadata_down_upstream r =
     (case r of
        Reference_ticker t \<Rightarrow> Inl (AxiosError (Some 500))
      | _ \<Rightarrow> Inr (JObj [(''status'', JStr ''OK'')]))"

definition echo_upstream :: market where
  "echo_upstream r =
     (case r of
        Snapshot_ticker t \<Rightarrow> Inr (JObj [(''ticker'', JObj [(''ticker'', JStr t)])])
      | _ \<Rightarrow> Inr (JObj []))"

section \<open>News with sentiment\<close>

text \<open>
  The AI provider, as the handlers see it: \<^verbatim>\<open>generateContent\<close> for the prompt built around a
  headline either throws or gives a response object. The prompt is a fixed text around the
  title, so one call is indexed by the title. Two calls with the same prompt need not give
  the same answer: the provider is also indexed by the position of the article whose
  sub-task makes the call.
\<close>

type_synonym ai_call = "jsval \<Rightarrow> exn + jsval"

type_synonym ai = "nat \<Rightarrow> ai_call"

text \<open>
  \<^verbatim>\<open>response.candidates?.[0]?.content?.parts?.[0]?.text.trim() || "Neutral"\<close>. The optional
  chain gives \<^verbatim>\<open>undefined\<close> as soon as one of its links is \<^verbatim>\<open>null\<close> or \<^verbatim>\<open>undefined\<close>; the last
  two steps are not optional, so a first part whose \<open>text\<close> is not a string throws.
\<close>

definition sentiment_of :: "jsval \<Rightarrow> exn + jsval" where
  "sentiment_of response =
     (if nullish response then Inl TypeError
      else
        let part = opt_first (opt (opt (opt_first (field response ''candidates'')) ''content'') ''parts'')
        in if nullish part then Inr (JStr ''Neutral'')
           else (case field part ''text'' of
                   JStr s \<Rightarrow> Inr (js_or (JStr (trim s)) (JStr ''Neutral''))
                 | _ \<Rightarrow> Inl TypeError))"

text \<open>\<^verbatim>\<open>Promise.all\<close> over sub-tasks that have all been started: the list of their values, or
  a rejection when one of them rejects (the handlers do not look at which).\<close>

fun promise_all :: "(exn + 'a) list \<Rightarrow> exn + 'a list" where
  "promise_all [] = Inr []"
| "promise_all (p # ps) =
     (case p of
        Inl err \<Rightarrow> Inl err
      | Inr v \<Rightarrow> (case promise_all ps of Inl err \<Rightarrow> Inl err | Inr vs \<Rightarrow> Inr (v # vs)))"

text \<open>The sub-task of GET /api/news/top for one article (lines 283 to 318). Two steps come
  before the inner \<^verbatim>\<open>try\<close> and reject the sub-task when they throw: reading the title of a
  \<^verbatim>\<open>null\<close> article, and writing the title into the prompt template.\<close>

definition analyze_top :: "ai_call \<Rightarrow> jsval \<Rightarrow> exn + jsval" where
  "analyze_top genAI article =
     (if nullish article then Inl TypeError
      else
        let title = field article ''title''
        in if to_primitive_throws title then Inl TypeError
           else
           (case (case genAI title of Inl err \<Rightarrow> Inl err | Inr response \<Rightarrow> sentiment_of response) of
              Inr sentiment \<Rightarrow>
                Inr (JObj
                  [(''title'', title),
                   (''url'', field article ''article_url''),
                   (''published'', field article ''published_utc''),
                   (''source'', js_or (opt (field article ''publisher'') ''name'') (JStr ''Unknown'')),
                   (''sentiment'', sentiment)])
            | Inl err \<Rightarrow>
                Inr (JObj
                  [(''title'', title),
                   (''url'', field article ''article_url''),
                   (''published'', field article ''published_utc''),
                   (''source'', js_or (opt (field article ''publisher'') ''name'') (JStr ''Unknown'')),
                   (''sentiment'', JStr ''Neutral'')])))"

definition news_top :: "market \<Rightarrow> ai \<Rightarrow> response" where
  "news_top up genAI =
     (case up News_latest of
        Inl err \<Rightarrow> error_json 500 ''Failed to fetch top news''
      | Inr data \<Rightarrow>
          if nullish data then error_json 500 ''Failed to fetch top news''
          else
            let articles = js_or (field data ''results'') (JArr [])
            in if \<not> truthy articles \<or> field articles ''length'' = JNum 0
               then error_json 404 ''No news found for this ticker''
               else (case articles of
                       JArr as \<Rightarrow>
                         (case promise_all
                                 (map (\<lambda>(i, article). analyze_top (genAI i) article) (enumerate 0 as)) of
                            Inl err \<Rightarrow> error_json 500 ''Failed to fetch top news''
                          | Inr analyzed \<Rightarrow> json (JArr analyzed))
                     | _ \<Rightarrow> error_json 500 ''Failed to fetch top news''))"

text \<open>The same for GET /api/news/:symbol (lines 397 to 431).\<close>

definition analyze_symbol :: "ai_call \<Rightarrow> jsval \<Rightarrow> exn + jsval" where
  "analyze_symbol genAI article =
     (if nullish article then Inl TypeError
      else
        let title = field article ''title''
        in if to_primitive_throws title then Inl TypeError
           else
           (case (case genAI title of Inl err \<Rightarrow> Inl err | Inr response \<Rightarrow> sentiment_of response) of
              Inr sentiment \<Rightarrow>
                Inr (JObj
                  [(''title'', title),
                   (''url'', field article ''article_url''),
                   (''published_utc'', js_coalesce (field article ''published_utc'') JNull),
                   (''source'', js_or (opt (field article ''publisher'') ''name'') (JStr ''Unknown'')),
                   (''sentiment'', sentiment)])
            | Inl err \<Rightarrow>
                Inr (JObj
                  [(''title'', title),
                   (''url'', field article ''article_url''),
                   (''published_utc'', js_coalesce (field article ''published_utc'') JNull),
                   (''source'', js_or (opt (field article ''publisher'') ''name'') (JStr ''Unknown'')),
                   (''sentiment'', JStr ''Neutral'')])))"

definition news_symbol :: "(string \<Rightarrow> string) \<Rightarrow> market \<Rightarrow> ai \<Rightarrow> string \<Rightarrow> response" where
  "news_symbol upper up genAI symbol =
     (case up (News_for (toUpperCase_text upper symbol)) of
        Inl err \<Rightarrow> error_json 500 ''Failed to fetch news for this ticker''
      | Inr data \<Rightarrow>
          if nullish data then error_json 500 ''Failed to fetch news for this ticker''
          else
            let articles = js_or (field data ''results'') (JArr [])
            in if \<not> truthy articles \<or> field articles ''length'' = JNum 0
               then error_json 404 ''No news found for this ticker''
               else (case articles of
                       JArr as \<Rightarrow>
                         (case promise_all
                                 (map (\<lambda>(i, article). analyze_symbol (genAI i) article) (enumerate 0 as)) of
                            Inl err \<Rightarrow> error_json 500 ''Failed to fetch news for this ticker''
                          | Inr analyzed \<Rightarrow> json (JArr analyzed))
                     | _ \<Rightarrow> error_json 500 ''Failed to fetch news for this ticker''))"

section \<open>GET /api/sectors\<close>

definition sectorETFs :: "(string \<times> string) list" where
  "sectorETFs =
     [(''Technology'', ''XLK''),
      (''Healthcare'', ''XLV''),
      (''Financials'', ''XLF''),
      (''Energy'', ''XLE''),
      (''Consumer Discretionary'', ''XLY'')]"

text \<open>The sub-task for one sector (lines 365 to 373). It has no \<^verbatim>\<open>try\<close> of its own.\<close>

definition sector_entry :: "market \<Rightarrow> string \<times> string \<Rightarrow> exn + jsval" where
  "sector_entry up etf =
     (case up (Snapshot_ticker (snd etf)) of
        Inl err \<Rightarrow> Inl err
      | Inr data \<Rightarrow>
          if nullish data \<or> nullish (field data ''ticker'') then Inl TypeError
          else Inr (JObj
            [(''name'', JStr (fst etf)),
             (''changePercent'',
                js_coalesce (field (field data ''ticker'') ''todaysChangePerc'') (JNum 0))]))"

definition sectors :: "market \<Rightarrow> response" where
  "sectors up =
     (case promise_all (map (sector_entry up) sectorETFs) of
        Inl err \<Rightarrow> error_json 500 ''Failed to fetch sector data''
      | Inr results \<Rightarrow> json (JArr results))"

text \<open>
  The label the news handlers end up with for a headline, written out for the properties
  below: the text of the first part of the first candidate, trimmed, when the call returns
  and that text is a string with something other than white space in it; \<open>Neutral\<close> in every
  other case.
\<close>

definition candidate_text :: "jsval \<Rightarrow> jsval" where
  "candidate_text response =
     opt (opt_first (opt (opt (opt_first (opt response ''candidates'')) ''content'') ''parts'')) ''text''"

definition sentiment_label :: "ai_call \<Rightarrow> jsval \<Rightarrow> jsval" where
  "sentiment_label genAI title =
     (case genAI title of
        Inl err \<Rightarrow> JStr ''Neutral''
      | Inr response \<Rightarrow>
          (case candidate_text response of
             JStr s \<Rightarrow> if trim s = [] then JStr ''Neutral'' else JStr (trim s)
           | _ \<Rightarrow> JStr ''Neutral''))"

text \<open>An article for which the sub-task gets as far as its \<^verbatim>\<open>try\<close>.\<close>

definition promptable :: "jsval \<Rightarrow> bool" where
  "promptable article = (\<not> nullish article \<and> \<not> to_primitive_throws (field article ''title''))"

text \<open>Example providers: an AI that answers every headline with the given text; one whose
  first call fails and whose other calls answer with the word between a no-break space and a
  line feed; a news page of two articles; a news page whose second title is an object with a
  \<open>toString\<close> property that is \<^verbatim>\<open>null\<close>; a market where one sector fund cannot be fetched.\<close>

definition ai_text :: "string \<Rightarrow> jsval" where
  "ai_text s =
     JObj [(''candidates'',
       JArr [JObj [(''content'', JObj [(''parts'', JArr [JObj [(''text'', JStr s)]])])]])]"

definition noisy_ai :: ai where
  "noisy_ai i title = Inr (ai_text ''Positive!'')"

definition flaky_ai :: ai where
  "flaky_ai i title =
     (if i = 0 then Inl AiError
      else Inr (ai_text ([CHR 0xC2, CHR 0xA0] @ ''Positive'' @ [CHR 0x0A])))"

definition two_articles_upstream :: market where
  "two_articles_upstream r =
     Inr (JObj [(''results'',
       JArr [JObj [(''title'', JStr ''Rates rise''), (''article_url'', JStr ''https://example.com/a'')],
             JObj [(''title'', JStr ''Stocks rally''), (''article_url'', JStr ''https://example.com/b'')]])])"

definition unprintable_title_upstream :: market where
  "unprintable_title_upstream r =
     Inr (JObj [(''results'',
       JArr [JObj [(''title'', JStr ''Rates rise'')],
             JObj [(''title'', JObj [(''toString'', JNull)])]])])"

definition energy_down_upstream :: market where
  "energy_down_upstream r =
     (if r = Snapshot_ticker ''XLE'' then Inl (AxiosError (Some 500))
      else Inr (JObj [(''ticker'', JObj [(''todaysChangePerc'', JNum 1)])]))"

section \<open>Mover lists\<close>

text \<open>The object the three mover routes build for one upstream ticker \<open>t\<close> (lines 208 to 214,
  230 to 236, 253 to 259); reading a property of a \<^verbatim>\<open>null\<close> ticker throws.\<close>

definition mover_entry :: "jsval \<Rightarrow> jsval" where
  "mover_entry t =
     JObj [(''symbol'', field t ''ticker''),
           (''name'', field t ''ticker''),
           (''price'', js_coalesce (opt (field t ''lastTrade'') ''p'') (JNum 0)),
           (''changePercent'', js_coalesce (field t ''todaysChangePerc'') (JNum 0)),
           (''volume'', js_coalesce (opt (field t ''day'') ''v'') (JNum 0))]"

definition mover :: "jsval \<Rightarrow> exn + jsval" where
  "mover t = (if nullish t then Inl TypeError else Inr (mover_entry t))"

text \<open>\<^verbatim>\<open>Array.prototype.map\<close> with a callback that can throw.\<close>

fun js_map :: "('a \<Rightarrow> exn + 'b) \<Rightarrow> 'a list \<Rightarrow> exn + 'b list" where
  "js_map f [] = Inr []"
| "js_map f (x # xs) =
     (case f x of
        Inl err \<Rightarrow> Inl err
      | Inr v \<Rightarrow> (case js_map f xs of Inl err \<Rightarrow> Inl err | Inr vs \<Rightarrow> Inr (v # vs)))"

text \<open>\<^verbatim>\<open>response.data.tickers.map(...)\<close>: it throws unless \<open>tickers\<close> is an array.\<close>

definition movers :: "jsval \<Rightarrow> exn + jsval list" where
  "movers data =
     (if nullish data then Inl TypeError
      else (case field data ''tickers'' of
              JArr ts \<Rightarrow> js_map mover ts
            | _ \<Rightarrow> Inl TypeError))"

text \<open>\<^verbatim>\<open>x - y\<close>, for operands whose conversion to a primitive does not throw: both are
  converted to numbers; \<open>None\<close> is NaN.\<close>

definition js_minus :: "(jsval \<Rightarrow> rat option) \<Rightarrow> jsval \<Rightarrow> jsval \<Rightarrow> rat option" where
  "js_minus conv x y =
     (case to_number conv x of
        None \<Rightarrow> None
      | Some m \<Rightarrow> (case to_number conv y of None \<Rightarrow> None | Some n \<Rightarrow> Some (m - n)))"

text \<open>The comparison function \<^verbatim>\<open>(a, b) => b.volume - a.volume\<close>.\<close>

definition by_volume :: "(jsval \<Rightarrow> rat option) \<Rightarrow> jsval \<Rightarrow> jsval \<Rightarrow> rat option" where
  "by_volume conv a b = js_minus conv (field b ''volume'') (field a ''volume'')"

text \<open>
  \<^verbatim>\<open>Array.prototype.sort(comparefn)\<close>. The language fixes the result when the comparison is
  consistent, as it is on volumes that are numbers: the sort is stable, \<open>a\<close> comes after \<open>b\<close>
  when \<open>comparefn(a, b) > 0\<close>, and a NaN counts as 0. It is modelled as the insertion sort with
  these properties.
\<close>

definition comes_after :: "('a \<Rightarrow> 'a \<Rightarrow> rat option) \<Rightarrow> 'a \<Rightarrow> 'a \<Rightarrow> bool" where
  "comes_after comparefn a b = (case comparefn a b of None \<Rightarrow> False | Some v \<Rightarrow> 0 < v)"

fun js_insert :: "('a \<Rightarrow> 'a \<Rightarrow> rat option) \<Rightarrow> 'a \<Rightarrow> 'a list \<Rightarrow> 'a list" where
  "js_insert comparefn a [] = [a]"
| "js_insert comparefn a (b # bs) =
     (if comes_after comparefn a b then b # js_insert comparefn a bs else a # b # bs)"

definition js_sort :: "('a \<Rightarrow> 'a \<Rightarrow> rat option) \<Rightarrow> 'a list \<Rightarrow> 'a list" where
  "js_sort comparefn xs = foldr (js_insert comparefn) xs []"

text \<open>The three handlers. In the last one the comparison function throws when the volume of
  an entry cannot be converted, and the sort calls it on every entry as soon as there are two
  of them.\<close>

definition top_gainers :: "market \<Rightarrow> response" where
  "top_gainers up =
     (case up Snapshot_gainers of
        Inl err \<Rightarrow> error_json 500 ''Failed to fetch top gainers''
      | Inr data \<Rightarrow>
          (case movers data of
             Inl err \<Rightarrow> error_json 500 ''Failed to fetch top gainers''
           | Inr result \<Rightarrow> json (JArr (take 5 result))))"

definition top_losers :: "market \<Rightarrow> response" where
  "top_losers up =
     (case up Snapshot_losers of
        Inl err \<Rightarrow> error_json 500 ''Failed to fetch top losers''
      | Inr data \<Rightarrow>
          (case movers data of
             Inl err \<Rightarrow> error_json 500 ''Failed to fetch top losers''
           | Inr result \<Rightarrow> json (JArr (take 5 result))))"

definition most_active :: "(jsval \<Rightarrow> rat option) \<Rightarrow> market \<Rightarrow> response" where
  "most_active conv up =
     (case up Snapshot_tickers_by_volume of
        Inl err \<Rightarrow> error_json 500 ''Failed to fetch most active stocks''
      | Inr data \<Rightarrow>
          (case movers data of
             Inl err \<Rightarrow> error_json 500 ''Failed to fetch most active stocks''
           | Inr mapped \<Rightarrow>
               if 2 \<le> length mapped \<and> (\<exists>e\<in>set mapped. to_primitive_throws (field e ''volume''))
               then error_json 500 ''Failed to fetch most active stocks''
               else json (JArr (take 7 (js_sort (by_volume conv) mapped)))))"

text \<open>For the properties: the volume of an entry as a number, and a ticker whose daily
  volume is a number or is missing.\<close>

definition volume_of :: "jsval \<Rightarrow> rat" where
  "volume_of entry = (case field entry ''volume'' of JNum n \<Rightarrow> n | _ \<Rightarrow> 0)"

definition numeric_volume :: "jsval \<Rightarrow> bool" where
  "numeric_volume t =
     (\<not> nullish t \<and>
      (case opt (field t ''day'') ''v'' of
         JNum n \<Rightarrow> True | JNull \<Rightarrow> True | JUndefined \<Rightarrow> True | _ \<Rightarrow> False))"

text \<open>An example page of nine tickers with volumes 3, 9, 1, 7, 5, 8, 2, 6, 4.\<close>

definition ticker_with_volume :: "string \<Rightarrow> rat \<Rightarrow> jsval" where
  "ticker_with_volume name v = JObj [(''ticker'', JStr name), (''day'', JObj [(''v'', JNum v)])]"

definition nine_tickers :: "jsval list" where
  "nine_tickers =
     [ticker_with_volume ''A'' 3, ticker_with_volume ''B'' 9, ticker_with_volume ''C'' 1,
      ticker_with_volume ''D'' 7, ticker_with_volume ''E'' 5, ticker_with_volume ''F'' 8,
      ticker_with_volume ''G'' 2, ticker_with_volume ''H'' 6, ticker_with_volume ''I'' 4]"

definition nine_tickers_upstream :: market where
  "nine_tickers_upstream r = Inr (JObj [(''tickers'', JArr nine_tickers)])"

section \<open>Rate limiting\<close>

text \<open>The options of \<^verbatim>\<open>apiLimiter\<close> (lines 29 to 35). The message starts with the four bytes of
  a sign in UTF-8.\<close>

record limiter_options =
  windowMs :: nat
  max_hits :: nat
  message :: string
  standardHeaders :: bool
  legacyHeaders :: bool

definition apiLimiter :: limiter_options where
  "apiLimiter =
     \<lparr>windowMs = 10 * 60 * 1000,
      max_hits = 500,
      message = [CHR 0xF0, CHR 0x9F, CHR 0x9A, CHR 0xAB]
                @ '' Too many requests from this IP. Please try again later.'',
      standardHeaders = True,
      legacyHeaders = False\<rparr>"

text \<open>
  The middleware that \<^verbatim>\<open>rateLimit(options)\<close> of the package express-rate-limit returns is not
  among the sources; the next definitions follow section 4.4 of the specification. The store
  keeps, for each client IP, the hits counted in its current window and the time at which
  that window ends.
\<close>

type_synonym limiter_store = "string \<Rightarrow> (nat \<times> nat) option"

datatype header_family = Standard | Legacy

datatype outcome =
    Handled "header_family list"
  | Rejected nat string "header_family list"

record request =
  ip :: string
  path :: "string list"
  arrival :: nat

text \<open>Modelled from the spec: the families of rate-limit headers a response of the limiter
  carries, one for each flag that is set.\<close>

definition rate_headers :: "limiter_options \<Rightarrow> header_family list" where
  "rate_headers opts =
     (if standardHeaders opts then [Standard] else []) @ (if legacyHeaders opts then [Legacy] else [])"

text \<open>
  Modelled from the spec: the counter of the limiter, which is not among the sources. The
  window is fixed: it opens with the first request of a client and lasts \<open>window\<close>
  milliseconds; a request inside it adds one hit, a request at or after its end opens a new
  window with one hit.
\<close>

definition increment :: "nat \<Rightarrow> limiter_store \<Rightarrow> string \<Rightarrow> nat \<Rightarrow> limiter_store \<times> nat" where
  "increment window store key now =
     (case store key of
        None \<Rightarrow> (store(key \<mapsto> (1, now + window)), 1)
      | Some (hits, reset) \<Rightarrow>
          if now < reset then (store(key \<mapsto> (Suc hits, reset)), Suc hits)
          else (store(key \<mapsto> (1, now + window)), 1))"

text \<open>
  Modelled from the spec: the middleware of the limiter, which is not among the sources. A
  request whose hit count is over the cap is answered with status 429 and the static message,
  every other request goes on to its handler; the standard rate-limit headers are set and the
  legacy ones are not, as the two flags say.
\<close>

definition rateLimit :: "limiter_options \<Rightarrow> limiter_store \<Rightarrow> request \<Rightarrow> limiter_store \<times> outcome" where
  "rateLimit opts store req =
     (case increment (windowMs opts) store (ip req) (arrival req) of
        (store', hits) \<Rightarrow>
          (store',
           if max_hits opts < hits then Rejected 429 (message opts) (rate_headers opts)
           else Handled (rate_headers opts)))"

text \<open>\<^verbatim>\<open>app.use('/api', apiLimiter)\<close> (line 37): the limiter sees the requests whose path starts
  with the segment \<open>api\<close>, in any case of these three letters, and no others. A path is its
  list of segments.\<close>

definition under_api :: "string list \<Rightarrow> bool" where
  "under_api p = (case p of [] \<Rightarrow> False | segment # rest \<Rightarrow> toUpperCase segment = ''API'')"

definition app_use_api :: "limiter_options \<Rightarrow> limiter_store \<Rightarrow> request \<Rightarrow> limiter_store \<times> outcome" where
  "app_use_api opts store req =
     (if under_api (path req) then rateLimit opts store req else (store, Handled []))"

text \<open>The server taking requests one after the other, with the one store.\<close>

fun serve :: "limiter_options \<Rightarrow> limiter_store \<Rightarrow> request list \<Rightarrow> outcome list" where
  "serve opts store [] = []"
| "serve opts store (req # reqs) =
     (case app_use_api opts store req of
        (store', out) \<Rightarrow> out # serve opts store' reqs)"

text \<open>The store after a run of requests.\<close>

fun run_store :: "limiter_options \<Rightarrow> limiter_store \<Rightarrow> request list \<Rightarrow> limiter_store" where
  "run_store opts store [] = store"
| "run_store opts store (req # reqs) = run_store opts (fst (app_use_api opts store req)) reqs"

text \<open>For the properties: the requests of client \<open>a\<close> that the limiter counts, how many of
  them there are among the first \<open>i + 1\<close> requests, what becomes of the request that is hit
  number \<open>hits\<close> of its window, and a client that has no window open at time \<open>t\<close>: it has not
  been seen, or its window has ended.\<close>

definition counted :: "string \<Rightarrow> request \<Rightarrow> bool" where
  "counted a req = (ip req = a \<and> under_api (path req))"

definition hits_upto :: "string \<Rightarrow> request list \<Rightarrow> nat \<Rightarrow> nat" where
  "hits_upto a reqs i = length (filter (counted a) (take (Suc i) reqs))"

definition verdict :: "limiter_options \<Rightarrow> nat \<Rightarrow> outcome" where
  "verdict opts hits =
     (if hits \<le> max_hits opts then Handled (rate_headers opts)
      else Rejected 429 (message opts) (rate_headers opts))"

definition no_open_window :: "limiter_store \<Rightarrow> string \<Rightarrow> nat \<Rightarrow> bool" where
  "no_open_window store a t = (case store a of None \<Rightarrow> True | Some (hits, reset) \<Rightarrow> reset \<le> t)"

text \<open>An example: a limiter capped at 2, and four requests inside one window, three of them
  from one client on three routes; then a fifth request, ten minutes after the first.\<close>

definition four_requests :: "request list" where
  "four_requests =
     [\<lparr>ip = ''10.0.0.1'', path = [''api'', ''market-status''], arrival = 1000\<rparr>,
      \<lparr>ip = ''10.0.0.2'', path = [''api'', ''sectors''], arrival = 1500\<rparr>,
      \<lparr>ip = ''10.0.0.1'', path = [''api'', ''quote'', ''AAPL''], arrival = 2000\<rparr>,
      \<lparr>ip = ''10.0.0.1'', path = [''api'', ''sectors''], arrival = 599999\<rparr>]"

definition fifth_request :: request where
  "fifth_request = \<lparr>ip = ''10.0.0.1'', path = [''api'', ''sectors''], arrival = 601000\<rparr>"

section \<open>Properties\<close>

subsection \<open>Market status\<close>

text \<open>
  C10. Whenever GET /api/market-status answers 200, its \<open>status\<close> field is \<open>OPEN\<close> exactly when
  the upstream body's \<open>market\<close> flag is the string \<open>open\<close>, and \<open>CLOSED\<close> in every other case;
  the value \<open>UNKNOWN\<close> is never produced.
\<close>

theorem market_status_open_closed:
  assumes "up Marketstatus_now = Inr data"
    and "status (market_status up) = 200"
  shows "field (body (market_status up)) ''status'' =
           (if field data ''market'' = JStr ''open'' then JStr ''OPEN'' else JStr ''CLOSED'')
         \<and> field (body (market_status up)) ''status'' \<noteq> JStr ''UNKNOWN''"
  using assms by (auto simp: market_status_def json_def error_json_def split: if_splits)

theorem market_status_open_closed_witness:
  "status (market_status (\<lambda>r. Inr (JObj [(''market'', JStr ''open'')]))) = 200
   \<and> field (body (market_status (\<lambda>r. Inr (JObj [(''market'', JStr ''open'')])))) ''status'' = JStr ''OPEN''
   \<and> status (market_status (\<lambda>r. Inr (JObj [(''market'', JStr ''extended-hours'')]))) = 200
   \<and> field (body (market_status (\<lambda>r. Inr (JObj [(''market'', JStr ''extended-hours'')])))) ''status''
       = JStr ''CLOSED''"
proof -
  let ?a = "\<lambda>r::market_req. (Inr (JObj [(''market'', JStr ''open'')]) :: exn + jsval)"
  let ?b = "\<lambda>r::market_req. (Inr (JObj [(''market'', JStr ''extended-hours'')]) :: exn + jsval)"
  have sa: "status (market_status ?a) = 200" and sb: "status (market_status ?b) = 200"
    by (simp_all add: market_status_def json_def)
  from market_status_open_closed [of ?a, OF refl sa] market_status_open_closed [of ?b, OF refl sb]
  show ?thesis using sa sb by simp
qed

subsection \<open>Chart ranges\<close>

lemma toUpperCase_1D: "toUpperCase_text upper ''1D'' = ''1D''"
  by (simp add: toUpperCase_text_def is_ascii_def toUpperCase_def upper_char_def)

lemma toUpperCase_text_Nil: "toUpperCase_text upper [] = []"
  by (simp add: toUpperCase_text_def is_ascii_def toUpperCase_def)

lemma iso_date_minus_days: "iso_date (now - int k * 24 * 60 * 60 * 1000) = iso_date now - int k"
proof -
  have "now - int k * 24 * 60 * 60 * 1000 = now + (- int k) * 86400000" by simp
  moreover have "(now + (- int k) * 86400000) div 86400000 = - int k + now div 86400000"
    by (rule div_mult_self1) simp
  ultimately show ?thesis by (simp add: iso_date_def)
qed

lemma chart_interval_table:
  "chart_interval k =
     (if k = ''1D'' then \<lparr>multiplier = 1, timespan = ''minute'', from_days = 1\<rparr>
      else if k = ''1W'' then \<lparr>multiplier = 15, timespan = ''minute'', from_days = 7\<rparr>
      else if k = ''1M'' then \<lparr>multiplier = 1, timespan = ''day'', from_days = 30\<rparr>
      else if k = ''6M'' then \<lparr>multiplier = 1, timespan = ''day'', from_days = 180\<rparr>
      else if k = ''1Y'' then \<lparr>multiplier = 1, timespan = ''day'', from_days = 365\<rparr>
      else if k = ''ALL'' then \<lparr>multiplier = 1, timespan = ''day'', from_days = 1825\<rparr>
      else \<lparr>multiplier = 1, timespan = ''minute'', from_days = 1\<rparr>)"
  by (simp add: chart_interval_def POLYGON_INTERVALS_def)

lemma chart_range_Some: "chart_range upper (Some r) = (if r = [] then ''1D'' else toUpperCase_text upper r)"
  by (simp add: chart_range_def toUpperCase_1D)

lemma chart_calls:
  "snd (chart upper up symbol q now) =
     [Aggs (toUpperCase_text upper symbol) (multiplier (chart_interval (chart_range upper q)))
        (timespan (chart_interval (chart_range upper q)))
        (iso_date now - int (from_days (chart_interval (chart_range upper q)))) (iso_date now)]"
  unfolding chart_def Let_def iso_date_minus_days
  by (simp split: sum.split)

text \<open>
  C5. GET /api/chart/:symbol maps the range string without regard to letter case through the
  fixed table (1D: 1/minute/1, 1W: 15/minute/7, 1M: 1/day/30, 6M: 1/day/180, 1Y: 1/day/365,
  ALL: 1/day/1825) and takes the 1D configuration for every other string and for a missing
  range; the request it sends upstream carries two calendar dates, the date of \<open>now\<close> and the
  date exactly \<open>from_days\<close> days before it.
\<close>

theorem chart_range_dates:
  "chart_interval (chart_range upper (Some r)) =
     (if toUpperCase_text upper r = ''1D'' then \<lparr>multiplier = 1, timespan = ''minute'', from_days = 1\<rparr>
      else if toUpperCase_text upper r = ''1W'' then \<lparr>multiplier = 15, timespan = ''minute'', from_days = 7\<rparr>
      else if toUpperCase_text upper r = ''1M'' then \<lparr>multiplier = 1, timespan = ''day'', from_days = 30\<rparr>
      else if toUpperCase_text upper r = ''6M'' then \<lparr>multiplier = 1, timespan = ''day'', from_days = 180\<rparr>
      else if toUpperCase_text upper r = ''1Y'' then \<lparr>multiplier = 1, timespan = ''day'', from_days = 365\<rparr>
      else if toUpperCase_text upper r = ''ALL'' then \<lparr>multiplier = 1, timespan = ''day'', from_days = 1825\<rparr>
      else \<lparr>multiplier = 1, timespan = ''minute'', from_days = 1\<rparr>)
   \<and> chart_interval (chart_range upper None) = \<lparr>multiplier = 1, timespan = ''minute'', from_days = 1\<rparr>
   \<and> (\<exists>from_date to_date.
         snd (chart upper up symbol q now) =
           [Aggs (toUpperCase_text upper symbol) (multiplier (chart_interval (chart_range upper q)))
              (timespan (chart_interval (chart_range upper q))) from_date to_date]
         \<and> to_date = iso_date now
         \<and> from_date = to_date - int (from_days (chart_interval (chart_range upper q))))"
proof (intro conjI)
  show "chart_interval (chart_range upper (Some r)) =
     (if toUpperCase_text upper r = ''1D'' then \<lparr>multiplier = 1, timespan = ''minute'', from_days = 1\<rparr>
      else if toUpperCase_text upper r = ''1W'' then \<lparr>multiplier = 15, timespan = ''minute'', from_days = 7\<rparr>
      else if toUpperCase_text upper r = ''1M'' then \<lparr>multiplier = 1, timespan = ''day'', from_days = 30\<rparr>
      else if toUpperCase_text upper r = ''6M'' then \<lparr>multiplier = 1, timespan = ''day'', from_days = 180\<rparr>
      else if toUpperCase_text upper r = ''1Y'' then \<lparr>multiplier = 1, timespan = ''day'', from_days = 365\<rparr>
      else if toUpperCase_text upper r = ''ALL'' then \<lparr>multiplier = 1, timespan = ''day'', from_days = 1825\<rparr>
      else \<lparr>multiplier = 1, timespan = ''minute'', from_days = 1\<rparr>)"
  proof (cases "r = []")
    case True
    then show ?thesis
      by (simp add: chart_range_Some chart_interval_table toUpperCase_text_Nil)
  next
    case False
    then show ?thesis
      by (simp only: chart_range_Some chart_interval_table if_False)
  qed
  show "chart_interval (chart_range upper None) = \<lparr>multiplier = 1, timespan = ''minute'', from_days = 1\<rparr>"
    by (simp add: chart_range_def toUpperCase_1D chart_interval_table)
  show "\<exists>from_date to_date.
         snd (chart upper up symbol q now) =
           [Aggs (toUpperCase_text upper symbol) (multiplier (chart_interval (chart_range upper q)))
              (timespan (chart_interval (chart_range upper q))) from_date to_date]
         \<and> to_date = iso_date now
         \<and> from_date = to_date - int (from_days (chart_interval (chart_range upper q)))"
    by (simp add: chart_calls)
qed

theorem chart_range_dates_witness:
  "chart_interval (chart_range toUpperCase (Some ''6m'')) = \<lparr>multiplier = 1, timespan = ''day'', from_days = 180\<rparr>
   \<and> snd (chart toUpperCase (\<lambda>r. Inl TypeError) ''aapl'' (Some ''1w'') 1700000000000) =
        [Aggs ''AAPL'' 15 ''minute'' 19668 19675]"
proof -
  have u: "toUpperCase_text toUpperCase ''6m'' = ''6M''"
    "toUpperCase_text toUpperCase ''aapl'' = ''AAPL''"
    by (simp_all add: toUpperCase_text_def is_ascii_def toUpperCase_def upper_char_def)
  have w: "chart_interval (chart_range toUpperCase (Some ''1w'')) = \<lparr>multiplier = 15, timespan = ''minute'', from_days = 7\<rparr>"
    by (simp add: chart_range_def toUpperCase_text_def is_ascii_def toUpperCase_def upper_char_def
        chart_interval_def POLYGON_INTERVALS_def)
  have d: "iso_date 1700000000000 = 19675"
    by (simp add: iso_date_def)
  note t = chart_range_dates [of toUpperCase "''6m''" "\<lambda>r. Inl TypeError" "''aapl''" "Some ''1w''" 1700000000000]
  from t have a: "chart_interval (chart_range toUpperCase (Some ''6m'')) = \<lparr>multiplier = 1, timespan = ''day'', from_days = 180\<rparr>"
    unfolding u by simp
  from t obtain f t' where
    "snd (chart toUpperCase (\<lambda>r. Inl TypeError) ''aapl'' (Some ''1w'') 1700000000000) =
       [Aggs (toUpperCase_text toUpperCase ''aapl'') (multiplier (chart_interval (chart_range toUpperCase (Some ''1w''))))
          (timespan (chart_interval (chart_range toUpperCase (Some ''1w'')))) f t']"
    "t' = iso_date 1700000000000"
    "f = t' - int (from_days (chart_interval (chart_range toUpperCase (Some ''1w''))))"
    by blast
  then have "snd (chart toUpperCase (\<lambda>r. Inl TypeError) ''aapl'' (Some ''1w'') 1700000000000) =
        [Aggs ''AAPL'' 15 ''minute'' 19668 19675]"
    unfolding u w d by simp
  with a show ?thesis by simp
qed

subsection \<open>Quotes\<close>

lemma is_alnum_upper_char: "is_alnum (upper_char c) = is_alnum c"
  by (simp add: upper_char_def is_alnum_def)

lemma isAlphanumeric_toUpperCase: "isAlphanumeric (toUpperCase s) = isAlphanumeric s"
  by (simp add: isAlphanumeric_def toUpperCase_def list_all_iff is_alnum_upper_char)

lemma validate_symbol_toUpperCase: "validate_symbol (toUpperCase s) = validate_symbol s"
proof -
  have "length (toUpperCase s) = length s" by (simp add: toUpperCase_def)
  then show ?thesis
    by (simp add: validate_symbol_def isAlphanumeric_toUpperCase isLength_def)
qed

lemma upper_char_idem: "upper_char (upper_char c) = upper_char c"
  by (simp add: upper_char_def)

lemma toUpperCase_idem: "toUpperCase (toUpperCase s) = toUpperCase s"
  by (simp add: toUpperCase_def upper_char_idem)

lemma quote_toUpperCase: "quote conv up (toUpperCase s) = quote conv up s"
  unfolding quote_def validate_symbol_toUpperCase toUpperCase_idem ..

lemma quote_case_insensitive:
  "toUpperCase s' = toUpperCase s \<Longrightarrow> quote conv up s' = quote conv up s"
  by (metis quote_toUpperCase)

lemma quote_valid:
  assumes "validate_symbol s = []"
  shows "quote conv up s =
     (case up (Snapshot_ticker (toUpperCase s)) of
             Inl err \<Rightarrow> (quote_catch err, [Snapshot_ticker (toUpperCase s)])
           | Inr snapshotRes \<Rightarrow>
               (case up (Reference_ticker (toUpperCase s)) of
                  Inl err \<Rightarrow>
                    (quote_catch err,
                     [Snapshot_ticker (toUpperCase s), Reference_ticker (toUpperCase s)])
                | Inr metaRes \<Rightarrow>
                    (quote_body conv (opt snapshotRes ''ticker'') (opt metaRes ''results''),
                     [Snapshot_ticker (toUpperCase s), Reference_ticker (toUpperCase s)])))"
  using assms by (simp add: quote_def)

lemma status_quote_catch: "status (quote_catch e) = (if e = AxiosError (Some 404) then 404 else 500)"
  by (simp add: quote_catch_def error_json_def)

lemma js_or_first_truthy: "js_or (js_or a b) d = first_truthy a b d"
  by (simp add: js_or_def first_truthy_def)

lemma status_quote_body:
  "status (quote_body conv snapshot metadata) =
     (if \<not> truthy snapshot \<or> keys_length snapshot = 0 then 404
      else if to_primitive_throws
             (first_truthy (field (js_or (field snapshot ''day'') (JObj [])) ''c'')
                (field (js_or (field snapshot ''min'') (JObj [])) ''c'') (JNum 0))
      then 500 else 200)"
  by (simp add: quote_body_def quote_catch_def error_json_def json_def Let_def
      js_or_first_truthy)

lemma valid_AAPL: "validate_symbol ''AAPL'' = []" "validate_symbol ''aapl'' = []"
  by (simp_all add: validate_symbol_def isAlphanumeric_def is_alnum_def isLength_def)

lemma upper_aapl: "toUpperCase ''aapl'' = ''AAPL''" "toUpperCase ''AAPL'' = ''AAPL''"
  by (simp_all add: toUpperCase_def upper_char_def)

lemma body_quote_body:
  assumes "truthy snapshot" "keys_length snapshot \<noteq> 0"
    and "\<not> to_primitive_throws
             (first_truthy (field (js_or (field snapshot ''day'') (JObj [])) ''c'')
                (field (js_or (field snapshot ''min'') (JObj [])) ''c'') (JNum 0))"
  shows "field (body (quote_body conv snapshot metadata)) ''symbol'' = field snapshot ''ticker''"
    and "field (body (quote_body conv snapshot metadata)) ''open'' =
           first_truthy (field (js_or (field snapshot ''day'') (JObj [])) ''o'')
                        (field (js_or (field snapshot ''min'') (JObj [])) ''o'') (JNum 0)"
    and "field (body (quote_body conv snapshot metadata)) ''high'' =
           first_truthy (field (js_or (field snapshot ''day'') (JObj [])) ''h'')
                        (field (js_or (field snapshot ''min'') (JObj [])) ''h'') (JNum 0)"
    and "field (body (quote_body conv snapshot metadata)) ''low'' =
           first_truthy (field (js_or (field snapshot ''day'') (JObj [])) ''l'')
                        (field (js_or (field snapshot ''min'') (JObj [])) ''l'') (JNum 0)"
    and "field (body (quote_body conv snapshot metadata)) ''volume'' =
           first_truthy (field (js_or (field snapshot ''day'') (JObj [])) ''v'')
                        (field (js_or (field snapshot ''min'') (JObj [])) ''v'') (JNum 0)"
    and "field (body (quote_body conv snapshot metadata)) ''price'' =
           js_Number conv
             (first_truthy (field (js_or (field snapshot ''day'') (JObj [])) ''c'')
                        (field (js_or (field snapshot ''min'') (JObj [])) ''c'') (JNum 0))"
  using assms
  by (simp_all add: quote_body_def json_def Let_def js_or_first_truthy)

lemma quote_200:
  assumes "validate_symbol s = []" and "status (fst (quote conv up s)) = 200"
  obtains sres mres where "up (Snapshot_ticker (toUpperCase s)) = Inr sres"
    and "up (Reference_ticker (toUpperCase s)) = Inr mres"
    and "truthy (opt sres ''ticker'')" and "keys_length (opt sres ''ticker'') \<noteq> 0"
    and "\<not> to_primitive_throws
             (first_truthy (field (js_or (field (opt sres ''ticker'') ''day'') (JObj [])) ''c'')
                (field (js_or (field (opt sres ''ticker'') ''min'') (JObj [])) ''c'') (JNum 0))"
    and "fst (quote conv up s) = quote_body conv (opt sres ''ticker'') (opt mres ''results'')"
  using assms(2) unfolding quote_valid [OF assms(1)]
  by (auto simp: status_quote_catch status_quote_body split: sum.splits if_splits)

lemma first_truthy_zero: "first_truthy (JNum 0) m d = (if truthy m then m else d)"
  by (simp add: first_truthy_def)

lemma first_truthy_non_null:
  "(truthy a \<or> nullish a) \<and> (truthy m \<or> nullish m) \<Longrightarrow> first_truthy a m d = first_non_null a m d"
  by (cases a; cases m) (auto simp: first_truthy_def first_non_null_def)

text \<open>
  C8, as stated, fails: the handler awaits the snapshot and the metadata before it looks at
  the snapshot. When the snapshot is absent and the metadata request fails with status 500,
  the answer is 500, not 404.
\<close>

theorem quote_absent_snapshot_metadata_fails:
  "metadata_down_upstream (Snapshot_ticker (toUpperCase ''aapl'')) = Inr (JObj [(''status'', JStr ''OK'')])
   \<and> opt (JObj [(''status'', JStr ''OK'')]) ''ticker'' = JUndefined
   \<and> metadata_down_upstream (Reference_ticker (toUpperCase ''aapl'')) = Inl (AxiosError (Some 500))
   \<and> status (fst (quote conv_nan metadata_down_upstream ''aapl'')) = 500"
  by (simp add: quote_valid valid_AAPL upper_aapl metadata_down_upstream_def opt_def
      status_quote_catch)

text \<open>
  C8, as amended. For a valid symbol, the first upstream call that fails decides the answer
  of GET /api/quote/:symbol: 404 when it fails with status 404, 500 when it fails in any other
  way, whatever the snapshot is. When both calls return and the snapshot is absent or empty,
  the answer is 404.
\<close>

theorem quote_not_found_or_failed:
  assumes "validate_symbol s = []"
  shows "(\<forall>e. up (Snapshot_ticker (toUpperCase s)) = Inl e \<longrightarrow>
            status (fst (quote conv up s)) = (if e = AxiosError (Some 404) then 404 else 500))
       \<and> (\<forall>sres e. up (Snapshot_ticker (toUpperCase s)) = Inr sres
                \<and> up (Reference_ticker (toUpperCase s)) = Inl e \<longrightarrow>
            status (fst (quote conv up s)) = (if e = AxiosError (Some 404) then 404 else 500))
       \<and> (\<forall>sres mres. up (Snapshot_ticker (toUpperCase s)) = Inr sres
                \<and> up (Reference_ticker (toUpperCase s)) = Inr mres
                \<and> (\<not> truthy (opt sres ''ticker'') \<or> keys_length (opt sres ''ticker'') = 0) \<longrightarrow>
            status (fst (quote conv up s)) = 404)"
  by (simp add: quote_valid [OF assms] status_quote_catch status_quote_body)

theorem quote_not_found_or_failed_witness:
  "validate_symbol ''aapl'' = []
   \<and> status (fst (quote conv_nan not_found_upstream ''aapl'')) = 404
   \<and> status (fst (quote conv_nan unreachable_upstream ''aapl'')) = 500
   \<and> status (fst (quote conv_nan no_snapshot_upstream ''aapl'')) = 404
   \<and> status (fst (quote conv_nan empty_snapshot_upstream ''aapl'')) = 404"
proof -
  note v = valid_AAPL(2)
  from quote_not_found_or_failed [OF v, of not_found_upstream conv_nan]
  have a: "status (fst (quote conv_nan not_found_upstream ''aapl'')) = 404"
    by (simp add: not_found_upstream_def)
  from quote_not_found_or_failed [OF v, of unreachable_upstream conv_nan]
  have b: "status (fst (quote conv_nan unreachable_upstream ''aapl'')) = 500"
    by (simp add: unreachable_upstream_def)
  from quote_not_found_or_failed [OF v, of no_snapshot_upstream conv_nan]
  have c: "status (fst (quote conv_nan no_snapshot_upstream ''aapl'')) = 404"
    by (simp add: no_snapshot_upstream_def opt_def)
  from quote_not_found_or_failed [OF v, of empty_snapshot_upstream conv_nan]
  have d: "status (fst (quote conv_nan empty_snapshot_upstream ''aapl'')) = 404"
    by (simp add: empty_snapshot_upstream_def opt_def)
  from v a b c d show ?thesis by simp
qed

text \<open>
  C7, as stated, fails: the handler does not change the case of the upstream ticker. When
  upstream names the ticker \<open>aapl\<close>, so does the quote.
\<close>

theorem quote_symbol_not_uppercased:
  "status (fst (quote conv_nan lower_case_upstream ''aapl'')) = 200
   \<and> field (body (fst (quote conv_nan lower_case_upstream ''aapl''))) ''symbol'' = JStr ''aapl''
   \<and> JStr ''aapl'' \<noteq> JStr (toUpperCase ''aapl'')"
  by (simp add: quote_valid valid_AAPL upper_aapl lower_case_upstream_def
      quote_body_def opt_def js_or_def json_def Let_def)

text \<open>
  C7, as amended. For a valid symbol \<open>s\<close>, in whatever letter case, the snapshot is requested for
  \<open>s\<close> in upper case, and a successful GET /api/quote/s returns a quote whose \<open>symbol\<close> is the
  \<open>ticker\<close> field of that snapshot as upstream sent it; two symbols that differ in letter case
  only get the same answer.
\<close>

theorem quote_symbol_is_upstream_ticker:
  assumes "validate_symbol s = []" and "status (fst (quote conv up s)) = 200"
  shows "(\<exists>sres. up (Snapshot_ticker (toUpperCase s)) = Inr sres
            \<and> hd (snd (quote conv up s)) = Snapshot_ticker (toUpperCase s)
            \<and> field (body (fst (quote conv up s))) ''symbol'' = field (opt sres ''ticker'') ''ticker'')
         \<and> (\<forall>s'. toUpperCase s' = toUpperCase s \<longrightarrow> quote conv up s' = quote conv up s)"
proof -
  from assms obtain sres mres where r: "up (Snapshot_ticker (toUpperCase s)) = Inr sres"
    "up (Reference_ticker (toUpperCase s)) = Inr mres"
    "truthy (opt sres ''ticker'')" "keys_length (opt sres ''ticker'') \<noteq> 0"
    "\<not> to_primitive_throws
       (first_truthy (field (js_or (field (opt sres ''ticker'') ''day'') (JObj [])) ''c'')
          (field (js_or (field (opt sres ''ticker'') ''min'') (JObj [])) ''c'') (JNum 0))"
    "fst (quote conv up s) = quote_body conv (opt sres ''ticker'') (opt mres ''results'')"
    by (rule quote_200)
  have "hd (snd (quote conv up s)) = Snapshot_ticker (toUpperCase s)"
    by (simp add: quote_valid [OF assms(1)] r(1,2))
  moreover have "field (body (fst (quote conv up s))) ''symbol'' = field (opt sres ''ticker'') ''ticker''"
    by (simp add: r(6) body_quote_body(1) [OF r(3,4,5)])
  ultimately show ?thesis using r(1) quote_case_insensitive by blast
qed

theorem quote_symbol_is_upstream_ticker_witness:
  "validate_symbol ''aapl'' = []
   \<and> status (fst (quote conv_nan echo_upstream ''aapl'')) = 200
   \<and> field (body (fst (quote conv_nan echo_upstream ''aapl''))) ''symbol'' = JStr ''AAPL''
   \<and> quote conv_nan echo_upstream ''aApL'' = quote conv_nan echo_upstream ''aapl''"
proof -
  note v = valid_AAPL(2)
  have st: "status (fst (quote conv_nan echo_upstream ''aapl'')) = 200"
    by (simp add: quote_valid [OF v] upper_aapl echo_upstream_def status_quote_body opt_def
        js_or_def first_truthy_def)
  have u: "toUpperCase ''aApL'' = toUpperCase ''aapl''"
    by (simp add: toUpperCase_def upper_char_def)
  note t = quote_symbol_is_upstream_ticker [OF v st]
  from t obtain sres where s1: "echo_upstream (Snapshot_ticker (toUpperCase ''aapl'')) = Inr sres"
    and s2: "field (body (fst (quote conv_nan echo_upstream ''aapl''))) ''symbol''
               = field (opt sres ''ticker'') ''ticker''"
    by blast
  from s1 have "sres = JObj [(''ticker'', JObj [(''ticker'', JStr ''AAPL'')])]"
    by (simp add: upper_aapl echo_upstream_def)
  with s2 have a: "field (body (fst (quote conv_nan echo_upstream ''aapl''))) ''symbol'' = JStr ''AAPL''"
    by (simp add: opt_def)
  from t have "toUpperCase ''aApL'' = toUpperCase ''aapl''
      \<longrightarrow> quote conv_nan echo_upstream ''aApL'' = quote conv_nan echo_upstream ''aapl''"
    by blast
  with u have b: "quote conv_nan echo_upstream ''aApL'' = quote conv_nan echo_upstream ''aapl''"
    by (rule rev_mp)
  from v st a b show ?thesis by (intro conjI)
qed

text \<open>
  C4, as stated, fails: with a daily open of 0 and a minute open of 5 the quote's open is 5,
  where ``first non-null wins'' selects the 0.
\<close>

theorem quote_zero_daily_value_skipped:
  "field (body (fst (quote conv_nan zero_day_upstream ''AAPL''))) ''open''
     \<noteq> first_non_null (field (field zero_day_snapshot ''day'') ''o'')
          (field (field zero_day_snapshot ''min'') ''o'') (JNum 0)"
  by (simp add: quote_valid valid_AAPL upper_aapl zero_day_upstream_def zero_day_snapshot_def
      quote_body_def opt_def js_or_def json_def first_non_null_def Let_def)

text \<open>
  C4, as amended. Each of open, high, low and volume of a quote is the first truthy value
  among the daily bar's field and the minute bar's field, and 0 when neither is truthy; the
  price is \<^verbatim>\<open>Number\<close> of that selection for the close. A daily value of 0 is skipped; the
  selection is ``first non-null wins'' whenever no candidate is a falsy value other than
  \<^verbatim>\<open>null\<close> and \<^verbatim>\<open>undefined\<close>.
\<close>

theorem quote_first_truthy_wins:
  assumes "validate_symbol s = []" and "status (fst (quote conv up s)) = 200"
  shows "(\<exists>sres. up (Snapshot_ticker (toUpperCase s)) = Inr sres \<and>
           (let snapshot = opt sres ''ticker'';
                day = js_or (field snapshot ''day'') (JObj []);
                minute = js_or (field snapshot ''min'') (JObj []);
                b = body (fst (quote conv up s))
            in field b ''open'' = first_truthy (field day ''o'') (field minute ''o'') (JNum 0)
             \<and> field b ''high'' = first_truthy (field day ''h'') (field minute ''h'') (JNum 0)
             \<and> field b ''low'' = first_truthy (field day ''l'') (field minute ''l'') (JNum 0)
             \<and> field b ''volume'' = first_truthy (field day ''v'') (field minute ''v'') (JNum 0)
             \<and> field b ''price'' =
                 js_Number conv (first_truthy (field day ''c'') (field minute ''c'') (JNum 0))))
       \<and> (\<forall>m d. first_truthy (JNum 0) m d = (if truthy m then m else d))
       \<and> (\<forall>a m d. (truthy a \<or> nullish a) \<and> (truthy m \<or> nullish m)
             \<longrightarrow> first_truthy a m d = first_non_null a m d)"
proof -
  from assms obtain sres mres where r: "up (Snapshot_ticker (toUpperCase s)) = Inr sres"
    "up (Reference_ticker (toUpperCase s)) = Inr mres"
    "truthy (opt sres ''ticker'')" "keys_length (opt sres ''ticker'') \<noteq> 0"
    "\<not> to_primitive_throws
       (first_truthy (field (js_or (field (opt sres ''ticker'') ''day'') (JObj [])) ''c'')
          (field (js_or (field (opt sres ''ticker'') ''min'') (JObj [])) ''c'') (JNum 0))"
    "fst (quote conv up s) = quote_body conv (opt sres ''ticker'') (opt mres ''results'')"
    by (rule quote_200)
  note b = body_quote_body [OF r(3,4,5), of conv "opt mres ''results''"]
  have "let snapshot = opt sres ''ticker'';
                day = js_or (field snapshot ''day'') (JObj []);
                minute = js_or (field snapshot ''min'') (JObj []);
                b = body (fst (quote conv up s))
            in field b ''open'' = first_truthy (field day ''o'') (field minute ''o'') (JNum 0)
             \<and> field b ''high'' = first_truthy (field day ''h'') (field minute ''h'') (JNum 0)
             \<and> field b ''low'' = first_truthy (field day ''l'') (field minute ''l'') (JNum 0)
             \<and> field b ''volume'' = first_truthy (field day ''v'') (field minute ''v'') (JNum 0)
             \<and> field b ''price'' =
                 js_Number conv (first_truthy (field day ''c'') (field minute ''c'') (JNum 0))"
    unfolding Let_def r(6) by (intro conjI b(2-6))
  with r(1) show ?thesis
    using first_truthy_zero first_truthy_non_null by blast
qed

theorem quote_first_truthy_wins_witness:
  "validate_symbol ''AAPL'' = []
   \<and> status (fst (quote conv_nan zero_day_upstream ''AAPL'')) = 200
   \<and> field (body (fst (quote conv_nan zero_day_upstream ''AAPL''))) ''open'' = JNum 5
   \<and> field (body (fst (quote conv_nan zero_day_upstream ''AAPL''))) ''volume'' = JNum 100
   \<and> field (body (fst (quote conv_nan zero_day_upstream ''AAPL''))) ''price'' = JNum 5"
proof -
  note v = valid_AAPL(1)
  have st: "status (fst (quote conv_nan zero_day_upstream ''AAPL'')) = 200"
    by (simp add: quote_valid [OF v] zero_day_upstream_def zero_day_snapshot_def status_quote_body
        opt_def js_or_def first_truthy_def)
  note t = quote_first_truthy_wins [OF v st]
  from t obtain sres where s1: "zero_day_upstream (Snapshot_ticker (toUpperCase ''AAPL'')) = Inr sres"
    and s2: "field (body (fst (quote conv_nan zero_day_upstream ''AAPL''))) ''open'' =
       first_truthy (field (js_or (field (opt sres ''ticker'') ''day'') (JObj [])) ''o'')
         (field (js_or (field (opt sres ''ticker'') ''min'') (JObj [])) ''o'') (JNum 0)"
    and s3: "field (body (fst (quote conv_nan zero_day_upstream ''AAPL''))) ''volume'' =
       first_truthy (field (js_or (field (opt sres ''ticker'') ''day'') (JObj [])) ''v'')
         (field (js_or (field (opt sres ''ticker'') ''min'') (JObj [])) ''v'') (JNum 0)"
    and s4: "field (body (fst (quote conv_nan zero_day_upstream ''AAPL''))) ''price'' =
       js_Number conv_nan (first_truthy (field (js_or (field (opt sres ''ticker'') ''day'') (JObj [])) ''c'')
         (field (js_or (field (opt sres ''ticker'') ''min'') (JObj [])) ''c'') (JNum 0))"
    unfolding Let_def by blast
  from s1 have sres: "sres = JObj [(''ticker'', zero_day_snapshot)]"
    by (simp add: zero_day_upstream_def)
  have a: "field (body (fst (quote conv_nan zero_day_upstream ''AAPL''))) ''open'' = JNum 5"
    unfolding s2 sres by (simp add: opt_def zero_day_snapshot_def js_or_def first_truthy_def)
  have b: "field (body (fst (quote conv_nan zero_day_upstream ''AAPL''))) ''volume'' = JNum 100"
    unfolding s3 sres by (simp add: opt_def zero_day_snapshot_def js_or_def first_truthy_def)
  have c: "field (body (fst (quote conv_nan zero_day_upstream ''AAPL''))) ''price'' = JNum 5"
    unfolding s4 sres by (simp add: opt_def zero_day_snapshot_def js_or_def first_truthy_def js_Number_def)
  from v st a b c show ?thesis by (intro conjI)
qed

subsection \<open>Validation\<close>

text \<open>
  C3. The symbol \<open>A-B\<close> is not alphanumeric. The quote route answers 400 with the first
  failure's message and calls nothing; the chart route, which has no validation, sends the
  symbol upstream and answers 200 or 500.
\<close>

theorem chart_sends_invalid_symbol_upstream:
  "validate_symbol ''A-B'' \<noteq> []
   \<and> fst (quote conv up ''A-B'') = error_json 400 ''Invalid value''
   \<and> snd (quote conv up ''A-B'') = []
   \<and> snd (chart upper up ''A-B'' None now) = [Aggs ''A-B'' 1 ''minute'' (iso_date now - 1) (iso_date now)]
   \<and> status (fst (chart upper up ''A-B'' None now)) \<noteq> 400"
proof -
  have v: "validate_symbol ''A-B'' = [''Invalid value'']"
    by (simp add: validate_symbol_def isAlphanumeric_def is_alnum_def isLength_def)
  have u: "toUpperCase_text upper ''A-B'' = ''A-B''"
    by (simp add: toUpperCase_text_def is_ascii_def toUpperCase_def upper_char_def)
  have c: "chart_interval (chart_range upper None) = \<lparr>multiplier = 1, timespan = ''minute'', from_days = 1\<rparr>"
    by (simp add: chart_range_def toUpperCase_1D chart_interval_table)
  have "snd (chart upper up ''A-B'' None now) = [Aggs ''A-B'' 1 ''minute'' (iso_date now - 1) (iso_date now)]"
    by (simp add: chart_calls u c)
  moreover have "status (fst (chart upper up ''A-B'' None now)) \<noteq> 400"
    by (simp add: chart_def Let_def error_json_def json_def split: sum.split)
  ultimately show ?thesis using v by (simp add: quote_def)
qed

theorem chart_sends_invalid_symbol_upstream_witness:
  "snd (quote conv_nan unreachable_upstream ''A-B'') = []
   \<and> snd (chart toUpperCase unreachable_upstream ''A-B'' None 1700000000000) = [Aggs ''A-B'' 1 ''minute'' 19674 19675]
   \<and> status (fst (chart toUpperCase unreachable_upstream ''A-B'' None 1700000000000)) \<noteq> 400"
proof -
  have d: "iso_date 1700000000000 = 19675"
    by (simp add: iso_date_def)
  from chart_sends_invalid_symbol_upstream [of conv_nan unreachable_upstream toUpperCase 1700000000000]
  show ?thesis unfolding d by simp
qed

subsection \<open>Trimming\<close>

lemma strip_done:
  assumes "\<forall>w\<in>set ws. w \<noteq> []" and "length s \<le> n"
  shows "find (\<lambda>w. take (length w) (strip ws n s) = w) ws = None"
  using assms(2)
proof (induction n arbitrary: s)
  case 0
  then have "s = []" by simp
  with assms(1) show ?case by (auto simp: find_None_iff)
next
  case (Suc n)
  show ?case
  proof (cases "find (\<lambda>w. take (length w) s = w) ws")
    case None
    then show ?thesis by simp
  next
    case (Some w)
    then have "w \<in> set ws" and p: "take (length w) s = w"
      by (auto simp: find_Some_iff)
    with assms(1) have "w \<noteq> []" by blast
    with p have "s \<noteq> []" by auto
    with \<open>w \<noteq> []\<close> Suc.prems have "length (drop (length w) s) \<le> n" by (cases w) auto
    from Suc.IH [OF this] Some show ?thesis by simp
  qed
qed

lemma white_space_nonempty: "\<forall>w\<in>set white_space. w \<noteq> []"
  by (simp add: white_space_def)

lemma trimStart_done: "find (\<lambda>w. take (length w) (trimStart s) = w) white_space = None"
  unfolding trimStart_def by (rule strip_done [OF white_space_nonempty]) simp

lemma trim_labels:
  "trim ''Positive'' = ''Positive''" "trim ''Negative'' = ''Negative''" "trim ''Neutral'' = ''Neutral''"
  by (simp_all add: trim_def trimStart_def trimEnd_def white_space_def)

lemma trim_examples:
  "trim ''Positive!'' = ''Positive!''"
  "trim ([CHR 0xC2, CHR 0xA0] @ ''Positive'' @ [CHR 0x0A]) = ''Positive''"
  "trim [CHR 0xC2, CHR 0xA0] = []"
  by (simp_all add: trim_def trimStart_def trimEnd_def white_space_def)

subsection \<open>News and sectors\<close>

lemma promise_all_Inr:
  "promise_all (map f xs) = Inr vs \<Longrightarrow>
     length vs = length xs \<and> (\<forall>i<length xs. f (xs ! i) = Inr (vs ! i))"
proof (induction xs arbitrary: vs)
  case Nil
  then show ?case by simp
next
  case (Cons x xs)
  from Cons.prems obtain v ws where v: "f x = Inr v" and ws: "promise_all (map f xs) = Inr ws"
    and vs: "vs = v # ws"
    by (auto split: sum.splits)
  from Cons.IH [OF ws] have "length ws = length xs" and "\<forall>i<length xs. f (xs ! i) = Inr (ws ! i)"
    by simp_all
  with v vs show ?case by (auto simp: nth_Cons split: nat.split)
qed

lemma promise_all_total:
  "\<forall>x\<in>set xs. \<exists>v. f x = Inr v \<Longrightarrow> \<exists>vs. promise_all (map f xs) = Inr vs"
  by (induction xs) auto

lemma promise_all_rejects:
  assumes "x \<in> set xs" and "f x = Inl e"
  shows "\<exists>e'. promise_all (map f xs) = Inl e'"
proof (cases "promise_all (map f xs)")
  case (Inl e')
  then show ?thesis by blast
next
  case (Inr vs)
  from assms(1) obtain i where "i < length xs" and "xs ! i = x"
    by (auto simp: in_set_conv_nth)
  with promise_all_Inr [OF Inr] assms(2) show ?thesis by auto
qed

lemma sentiment_of_label:
  "(case (case genAI t of Inl err \<Rightarrow> Inl err | Inr response \<Rightarrow> sentiment_of response) of
      Inr sentiment \<Rightarrow> sentiment | Inl err \<Rightarrow> JStr ''Neutral'') = sentiment_label genAI t"
proof (cases "genAI t")
  case (Inl e)
  then show ?thesis by (simp add: sentiment_label_def)
next
  case (Inr r)
  show ?thesis
  proof (cases "nullish r")
    case True
    then show ?thesis using Inr
      by (simp add: sentiment_label_def sentiment_of_def candidate_text_def opt_def)
  next
    case False
    let ?part = "opt_first (opt (opt (opt_first (field r ''candidates'')) ''content'') ''parts'')"
    have ct: "candidate_text r = opt ?part ''text''"
      using False by (simp add: candidate_text_def opt_def)
    show ?thesis
    proof (cases "nullish ?part")
      case True
      then show ?thesis using Inr False ct
        by (simp add: sentiment_label_def sentiment_of_def Let_def opt_def)
    next
      case np: False
      then have "candidate_text r = field ?part ''text''"
        using ct by (simp add: opt_def)
      then show ?thesis using Inr False np
        by (cases "field ?part ''text''")
          (simp_all add: sentiment_label_def sentiment_of_def Let_def js_or_def)
    qed
  qed
qed

lemma analyze_top_item:
  assumes "promptable a"
  shows "\<exists>item. analyze_top genAI a = Inr item
           \<and> field item ''title'' = field a ''title''
           \<and> field item ''sentiment'' = sentiment_label genAI (field a ''title'')"
proof -
  let ?r = "case genAI (field a ''title'') of Inl err \<Rightarrow> Inl err | Inr response \<Rightarrow> sentiment_of response"
  have l: "(case ?r of Inr sentiment \<Rightarrow> sentiment | Inl err \<Rightarrow> JStr ''Neutral'')
             = sentiment_label genAI (field a ''title'')"
    by (rule sentiment_of_label)
  show ?thesis
  proof (cases ?r)
    case (Inl e)
    with l assms show ?thesis by (simp add: analyze_top_def promptable_def Let_def)
  next
    case (Inr s)
    with l assms show ?thesis by (simp add: analyze_top_def promptable_def Let_def)
  qed
qed

lemma analyze_symbol_item:
  assumes "promptable a"
  shows "\<exists>item. analyze_symbol genAI a = Inr item
           \<and> field item ''title'' = field a ''title''
           \<and> field item ''sentiment'' = sentiment_label genAI (field a ''title'')"
proof -
  let ?r = "case genAI (field a ''title'') of Inl err \<Rightarrow> Inl err | Inr response \<Rightarrow> sentiment_of response"
  have l: "(case ?r of Inr sentiment \<Rightarrow> sentiment | Inl err \<Rightarrow> JStr ''Neutral'')
             = sentiment_label genAI (field a ''title'')"
    by (rule sentiment_of_label)
  show ?thesis
  proof (cases ?r)
    case (Inl e)
    with l assms show ?thesis by (simp add: analyze_symbol_def promptable_def Let_def)
  next
    case (Inr s)
    with l assms show ?thesis by (simp add: analyze_symbol_def promptable_def Let_def)
  qed
qed

lemma analyze_rejects:
  "\<not> promptable a \<Longrightarrow> analyze_top genAI a = Inl TypeError"
  "\<not> promptable a \<Longrightarrow> analyze_symbol genAI a = Inl TypeError"
  by (auto simp: analyze_top_def analyze_symbol_def promptable_def Let_def)

lemma enumerate_nth: "i < length as \<Longrightarrow> enumerate 0 as ! i = (i, as ! i)"
  by (simp add: nth_enumerate_eq)

lemma analyzed_labels:
  assumes "promise_all (map (\<lambda>(i, article). analyze_top (genAI i) article) (enumerate 0 as)) = Inr items"
  shows "length items = length as
     \<and> (\<forall>i<length as. promptable (as ! i)
           \<and> field (items ! i) ''title'' = field (as ! i) ''title''
           \<and> field (items ! i) ''sentiment'' = sentiment_label (genAI i) (field (as ! i) ''title''))"
proof -
  from promise_all_Inr [OF assms] have len: "length items = length as"
    and each: "\<forall>i<length as. analyze_top (genAI i) (as ! i) = Inr (items ! i)"
    by (simp_all add: enumerate_nth)
  have "promptable (as ! i) \<and> field (items ! i) ''title'' = field (as ! i) ''title''
           \<and> field (items ! i) ''sentiment'' = sentiment_label (genAI i) (field (as ! i) ''title'')"
    if "i < length as" for i
  proof -
    from each that have e: "analyze_top (genAI i) (as ! i) = Inr (items ! i)" by simp
    then have p: "promptable (as ! i)" using analyze_rejects(1) [of "as ! i" "genAI i"] by auto
    from analyze_top_item [OF this, of "genAI i"] e p show ?thesis by simp
  qed
  with len show ?thesis by simp
qed

lemma analyzed_symbol_labels:
  assumes "promise_all (map (\<lambda>(i, article). analyze_symbol (genAI i) article) (enumerate 0 as)) = Inr items"
  shows "length items = length as
     \<and> (\<forall>i<length as. promptable (as ! i)
           \<and> field (items ! i) ''title'' = field (as ! i) ''title''
           \<and> field (items ! i) ''sentiment'' = sentiment_label (genAI i) (field (as ! i) ''title''))"
proof -
  from promise_all_Inr [OF assms] have len: "length items = length as"
    and each: "\<forall>i<length as. analyze_symbol (genAI i) (as ! i) = Inr (items ! i)"
    by (simp_all add: enumerate_nth)
  have "promptable (as ! i) \<and> field (items ! i) ''title'' = field (as ! i) ''title''
           \<and> field (items ! i) ''sentiment'' = sentiment_label (genAI i) (field (as ! i) ''title'')"
    if "i < length as" for i
  proof -
    from each that have e: "analyze_symbol (genAI i) (as ! i) = Inr (items ! i)" by simp
    then have p: "promptable (as ! i)" using analyze_rejects(2) [of "as ! i" "genAI i"] by auto
    from analyze_symbol_item [OF this, of "genAI i"] e p show ?thesis by simp
  qed
  with len show ?thesis by simp
qed

lemma analyze_all_top:
  "(\<exists>items. promise_all (map (\<lambda>(i, article). analyze_top (genAI i) article) (enumerate 0 as)) = Inr items)
     = (\<forall>a\<in>set as. promptable a)"
proof
  assume "\<exists>items. promise_all (map (\<lambda>(i, article). analyze_top (genAI i) article) (enumerate 0 as)) = Inr items"
  then obtain items where
    "promise_all (map (\<lambda>(i, article). analyze_top (genAI i) article) (enumerate 0 as)) = Inr items"
    by blast
  from analyzed_labels [OF this] show "\<forall>a\<in>set as. promptable a"
    by (auto simp: in_set_conv_nth)
next
  assume p: "\<forall>a\<in>set as. promptable a"
  have "\<exists>v. (\<lambda>(i, article). analyze_top (genAI i) article) x = Inr v" if "x \<in> set (enumerate 0 as)" for x
  proof -
    from that have "fst x < length as" and "as ! fst x = snd x"
      by (simp_all add: in_set_enumerate_eq)
    then have "snd x \<in> set as" using nth_mem [of "fst x" as] by simp
    with p have "promptable (snd x)" by blast
    from analyze_top_item [OF this, of "genAI (fst x)"] show ?thesis by (cases x) auto
  qed
  then show "\<exists>items. promise_all (map (\<lambda>(i, article). analyze_top (genAI i) article) (enumerate 0 as)) = Inr items"
    using promise_all_total [of "enumerate 0 as" "\<lambda>(i, article). analyze_top (genAI i) article"] by blast
qed

lemma analyze_all_symbol:
  "(\<exists>items. promise_all (map (\<lambda>(i, article). analyze_symbol (genAI i) article) (enumerate 0 as)) = Inr items)
     = (\<forall>a\<in>set as. promptable a)"
proof
  assume "\<exists>items. promise_all (map (\<lambda>(i, article). analyze_symbol (genAI i) article) (enumerate 0 as)) = Inr items"
  then obtain items where
    "promise_all (map (\<lambda>(i, article). analyze_symbol (genAI i) article) (enumerate 0 as)) = Inr items"
    by blast
  from analyzed_symbol_labels [OF this] show "\<forall>a\<in>set as. promptable a"
    by (auto simp: in_set_conv_nth)
next
  assume p: "\<forall>a\<in>set as. promptable a"
  have "\<exists>v. (\<lambda>(i, article). analyze_symbol (genAI i) article) x = Inr v" if "x \<in> set (enumerate 0 as)" for x
  proof -
    from that have "fst x < length as" and "as ! fst x = snd x"
      by (simp_all add: in_set_enumerate_eq)
    then have "snd x \<in> set as" using nth_mem [of "fst x" as] by simp
    with p have "promptable (snd x)" by blast
    from analyze_symbol_item [OF this, of "genAI (fst x)"] show ?thesis by (cases x) auto
  qed
  then show "\<exists>items. promise_all (map (\<lambda>(i, article). analyze_symbol (genAI i) article) (enumerate 0 as)) = Inr items"
    using promise_all_total [of "enumerate 0 as" "\<lambda>(i, article). analyze_symbol (genAI i) article"] by blast
qed

lemma news_top_articles:
  assumes "up News_latest = Inr data" and "field data ''results'' = JArr as" and "as \<noteq> []"
  shows "news_top up genAI =
     (case promise_all (map (\<lambda>(i, article). analyze_top (genAI i) article) (enumerate 0 as)) of
        Inl err \<Rightarrow> error_json 500 ''Failed to fetch top news''
      | Inr analyzed \<Rightarrow> json (JArr analyzed))"
proof -
  from assms(2) have "\<not> nullish data" by (cases data) auto
  with assms show ?thesis by (simp add: news_top_def js_or_def Let_def)
qed

lemma news_symbol_articles:
  assumes "up (News_for (toUpperCase_text upper symbol)) = Inr data"
    and "field data ''results'' = JArr as" and "as \<noteq> []"
  shows "news_symbol upper up genAI symbol =
     (case promise_all (map (\<lambda>(i, article). analyze_symbol (genAI i) article) (enumerate 0 as)) of
        Inl err \<Rightarrow> error_json 500 ''Failed to fetch news for this ticker''
      | Inr analyzed \<Rightarrow> json (JArr analyzed))"
proof -
  from assms(2) have "\<not> nullish data" by (cases data) auto
  with assms show ?thesis by (simp add: news_symbol_def js_or_def Let_def)
qed

lemma news_top_200:
  assumes "status (news_top up genAI) = 200"
  obtains data as items where "up News_latest = Inr data" and "field data ''results'' = JArr as"
    and "promise_all (map (\<lambda>(i, article). analyze_top (genAI i) article) (enumerate 0 as)) = Inr items"
    and "body (news_top up genAI) = JArr items"
proof -
  from assms obtain data where d: "up News_latest = Inr data" and nn: "\<not> nullish data"
    by (auto simp: news_top_def error_json_def split: sum.splits if_splits)
  let ?articles = "js_or (field data ''results'') (JArr [])"
  from assms d nn have t: "truthy ?articles" "field ?articles ''length'' \<noteq> JNum 0"
    by (auto simp: news_top_def error_json_def Let_def split: if_splits)
  with assms d nn obtain as where a: "?articles = JArr as"
    by (cases ?articles) (auto simp: news_top_def error_json_def Let_def)
  with t have ne: "as \<noteq> []" by auto
  with a have r: "field data ''results'' = JArr as"
    by (auto simp: js_or_def split: if_splits)
  from assms obtain items where
    "promise_all (map (\<lambda>(i, article). analyze_top (genAI i) article) (enumerate 0 as)) = Inr items"
    and "body (news_top up genAI) = JArr items"
    unfolding news_top_articles [of up data as genAI, OF d r ne]
    by (auto simp: error_json_def json_def split: sum.splits)
  with d r show ?thesis using that by blast
qed

lemma news_symbol_200:
  assumes "status (news_symbol upper up genAI symbol) = 200"
  obtains data as items where "up (News_for (toUpperCase_text upper symbol)) = Inr data"
    and "field data ''results'' = JArr as"
    and "promise_all (map (\<lambda>(i, article). analyze_symbol (genAI i) article) (enumerate 0 as)) = Inr items"
    and "body (news_symbol upper up genAI symbol) = JArr items"
proof -
  from assms obtain data where d: "up (News_for (toUpperCase_text upper symbol)) = Inr data"
    and nn: "\<not> nullish data"
    by (auto simp: news_symbol_def error_json_def split: sum.splits if_splits)
  let ?articles = "js_or (field data ''results'') (JArr [])"
  from assms d nn have t: "truthy ?articles" "field ?articles ''length'' \<noteq> JNum 0"
    by (auto simp: news_symbol_def error_json_def Let_def split: if_splits)
  with assms d nn obtain as where a: "?articles = JArr as"
    by (cases ?articles) (auto simp: news_symbol_def error_json_def Let_def)
  with t have ne: "as \<noteq> []" by auto
  with a have r: "field data ''results'' = JArr as"
    by (auto simp: js_or_def split: if_splits)
  from assms obtain items where
    "promise_all (map (\<lambda>(i, article). analyze_symbol (genAI i) article) (enumerate 0 as)) = Inr items"
    and "body (news_symbol upper up genAI symbol) = JArr items"
    unfolding news_symbol_articles [of up upper symbol data as genAI, OF d r ne]
    by (auto simp: error_json_def json_def split: sum.splits)
  with d r show ?thesis using that by blast
qed

lemma sentiment_label_nonempty: "\<exists>s. sentiment_label genAI t = JStr s \<and> s \<noteq> []"
  by (auto simp: sentiment_label_def split: sum.splits jsval.splits)

lemma sentiment_label_exact:
  assumes "genAI t = Inr response" and "candidate_text response = JStr s"
    and "s \<in> {''Positive'', ''Negative'', ''Neutral''}"
  shows "sentiment_label genAI t = JStr s"
  using assms by (auto simp: sentiment_label_def trim_labels)

lemma sentiment_label_failed: "genAI t = Inl e \<Longrightarrow> sentiment_label genAI t = JStr ''Neutral''"
  by (simp add: sentiment_label_def)

lemma flaky_labels:
  "sentiment_label (flaky_ai 0) t = JStr ''Neutral''"
  "sentiment_label (flaky_ai (Suc 0)) t = JStr ''Positive''"
  by (simp_all add: sentiment_label_def flaky_ai_def ai_text_def candidate_text_def opt_def
      trim_def trimStart_def trimEnd_def white_space_def)

lemma two_articles_200:
  "status (news_top two_articles_upstream flaky_ai) = 200"
  "status (news_symbol toUpperCase two_articles_upstream flaky_ai ''aapl'') = 200"
  by (simp_all add: news_top_def news_symbol_def two_articles_upstream_def js_or_def Let_def
      analyze_top_def analyze_symbol_def json_def split: sum.split)

lemma news_top_status:
  assumes "up News_latest = Inr data \<and> field data ''results'' = JArr as \<and> as \<noteq> []"
  shows "status (news_top up genAI) = (if \<forall>a\<in>set as. promptable a then 200 else 500)"
proof -
  from assms have n: "news_top up genAI =
     (case promise_all (map (\<lambda>(i, article). analyze_top (genAI i) article) (enumerate 0 as)) of
        Inl err \<Rightarrow> error_json 500 ''Failed to fetch top news''
      | Inr analyzed \<Rightarrow> json (JArr analyzed))"
    by (simp add: news_top_articles [of up data as genAI])
  show ?thesis
  proof (cases "promise_all (map (\<lambda>(i, article). analyze_top (genAI i) article) (enumerate 0 as))")
    case (Inl e)
    then have "\<not> (\<forall>a\<in>set as. promptable a)"
      using analyze_all_top [of genAI as] by simp
    with n Inl show ?thesis by (simp add: error_json_def)
  next
    case (Inr items)
    then have "\<forall>a\<in>set as. promptable a"
      using analyze_all_top [of genAI as] by simp
    with n Inr show ?thesis by (simp add: json_def)
  qed
qed

lemma news_top_items:
  assumes "up News_latest = Inr data \<and> field data ''results'' = JArr as \<and> as \<noteq> []"
    and "\<forall>a\<in>set as. promptable a"
  shows "\<exists>items. body (news_top up genAI) = JArr items \<and> length items = length as
            \<and> (\<forall>i<length as.
                  field (items ! i) ''title'' = field (as ! i) ''title''
                  \<and> field (items ! i) ''sentiment'' = sentiment_label (genAI i) (field (as ! i) ''title'')
                  \<and> ((\<exists>e. genAI i (field (as ! i) ''title'') = Inl e) \<longrightarrow>
                        field (items ! i) ''sentiment'' = JStr ''Neutral''))"
proof -
  from assms(2) obtain items where
    i: "promise_all (map (\<lambda>(i, article). analyze_top (genAI i) article) (enumerate 0 as)) = Inr items"
    using analyze_all_top [of genAI as] by auto
  with assms(1) have "body (news_top up genAI) = JArr items"
    by (simp add: news_top_articles [of up data as genAI] json_def)
  with analyzed_labels [OF i] sentiment_label_failed show ?thesis by auto
qed

lemma news_symbol_status:
  assumes "up (News_for (toUpperCase_text upper symbol)) = Inr data \<and> field data ''results'' = JArr as
     \<and> as \<noteq> []"
  shows "status (news_symbol upper up genAI symbol) = (if \<forall>a\<in>set as. promptable a then 200 else 500)"
proof -
  from assms have n: "news_symbol upper up genAI symbol =
     (case promise_all (map (\<lambda>(i, article). analyze_symbol (genAI i) article) (enumerate 0 as)) of
        Inl err \<Rightarrow> error_json 500 ''Failed to fetch news for this ticker''
      | Inr analyzed \<Rightarrow> json (JArr analyzed))"
    by (simp add: news_symbol_articles [of up upper symbol data as genAI])
  show ?thesis
  proof (cases "promise_all (map (\<lambda>(i, article). analyze_symbol (genAI i) article) (enumerate 0 as))")
    case (Inl e)
    then have "\<not> (\<forall>a\<in>set as. promptable a)"
      using analyze_all_symbol [of genAI as] by simp
    with n Inl show ?thesis by (simp add: error_json_def)
  next
    case (Inr items)
    then have "\<forall>a\<in>set as. promptable a"
      using analyze_all_symbol [of genAI as] by simp
    with n Inr show ?thesis by (simp add: json_def)
  qed
qed

lemma news_symbol_items:
  assumes "up (News_for (toUpperCase_text upper symbol)) = Inr data \<and> field data ''results'' = JArr as
     \<and> as \<noteq> []"
    and "\<forall>a\<in>set as. promptable a"
  shows "\<exists>items. body (news_symbol upper up genAI symbol) = JArr items \<and> length items = length as
            \<and> (\<forall>i<length as.
                  field (items ! i) ''title'' = field (as ! i) ''title''
                  \<and> field (items ! i) ''sentiment'' = sentiment_label (genAI i) (field (as ! i) ''title'')
                  \<and> ((\<exists>e. genAI i (field (as ! i) ''title'') = Inl e) \<longrightarrow>
                        field (items ! i) ''sentiment'' = JStr ''Neutral''))"
proof -
  from assms(2) obtain items where
    i: "promise_all (map (\<lambda>(i, article). analyze_symbol (genAI i) article) (enumerate 0 as)) = Inr items"
    using analyze_all_symbol [of genAI as] by auto
  with assms(1) have "body (news_symbol upper up genAI symbol) = JArr items"
    by (simp add: news_symbol_articles [of up upper symbol data as genAI] json_def)
  with analyzed_symbol_labels [OF i] sentiment_label_failed show ?thesis by auto
qed

lemma sectors_status:
  "status (sectors up) = (if \<forall>etf\<in>set sectorETFs. \<exists>v. sector_entry up etf = Inr v then 200 else 500)"
proof (cases "promise_all (map (sector_entry up) sectorETFs)")
  case (Inl e)
  have "\<not> (\<forall>etf\<in>set sectorETFs. \<exists>v. sector_entry up etf = Inr v)"
  proof
    assume "\<forall>etf\<in>set sectorETFs. \<exists>v. sector_entry up etf = Inr v"
    then have "\<exists>vs. promise_all (map (sector_entry up) sectorETFs) = Inr vs"
      by (rule promise_all_total)
    with Inl show False by simp
  qed
  with Inl show ?thesis by (simp add: sectors_def error_json_def)
next
  case (Inr vs)
  have "\<exists>v. sector_entry up etf = Inr v" if "etf \<in> set sectorETFs" for etf
  proof -
    from that obtain i where "i < length sectorETFs" "sectorETFs ! i = etf"
      by (auto simp: in_set_conv_nth)
    with promise_all_Inr [OF Inr] show ?thesis by auto
  qed
  with Inr show ?thesis by (simp add: sectors_def json_def)
qed

lemma sectors_failed_call:
  assumes "\<exists>etf\<in>set sectorETFs. \<exists>e. up (Snapshot_ticker (snd etf)) = Inl e"
  shows "status (sectors up) = 500"
proof -
  from assms obtain etf e where "etf \<in> set sectorETFs" "sector_entry up etf = Inl e"
    by (auto simp: sector_entry_def)
  then have "\<not> (\<forall>etf\<in>set sectorETFs. \<exists>v. sector_entry up etf = Inr v)"
    by (metis Inl_Inr_False)
  then show ?thesis by (simp add: sectors_status)
qed

text \<open>
  C1, as stated, fails: an AI answer \<open>Positive!\<close> is returned as it is by both news routes.
\<close>

theorem news_sentiment_verbatim:
  "field (opt_first (body (news_top two_articles_upstream noisy_ai))) ''sentiment'' = JStr ''Positive!''
   \<and> field (opt_first (body (news_symbol toUpperCase two_articles_upstream noisy_ai ''aapl''))) ''sentiment''
        = JStr ''Positive!''
   \<and> JStr ''Positive!'' \<notin> {JStr ''Positive'', JStr ''Negative'', JStr ''Neutral''}"
  by (simp add: news_top_def news_symbol_def two_articles_upstream_def noisy_ai_def ai_text_def
      js_or_def Let_def analyze_top_def analyze_symbol_def sentiment_of_def opt_def trim_def
      trimStart_def trimEnd_def white_space_def json_def)

text \<open>
  C1, as amended. For every headline in a 200 response of GET /api/news/top and
  GET /api/news/:symbol, the \<open>sentiment\<close> field is a non-empty string: the text of the first
  candidate of the AI response to that headline's call, with the white space of both ends
  removed, when the call returns such a text with something other than white space in it,
  and \<open>Neutral\<close> in every other case. An answer that is exactly \<open>Positive\<close>, \<open>Negative\<close> or
  \<open>Neutral\<close> is returned as that word; no other text is coerced.
\<close>

theorem news_sentiment_is_trimmed_text:
  "(status (news_top up genAI) = 200 \<longrightarrow>
      (\<exists>data as items. up News_latest = Inr data \<and> field data ''results'' = JArr as
         \<and> body (news_top up genAI) = JArr items \<and> length items = length as
         \<and> (\<forall>i<length as.
               field (items ! i) ''sentiment'' = sentiment_label (genAI i) (field (as ! i) ''title''))))
   \<and> (status (news_symbol upper up genAI symbol) = 200 \<longrightarrow>
      (\<exists>data as items. up (News_for (toUpperCase_text upper symbol)) = Inr data
         \<and> field data ''results'' = JArr as
         \<and> body (news_symbol upper up genAI symbol) = JArr items \<and> length items = length as
         \<and> (\<forall>i<length as.
               field (items ! i) ''sentiment'' = sentiment_label (genAI i) (field (as ! i) ''title''))))
   \<and> (\<exists>s. sentiment_label call t = JStr s \<and> s \<noteq> [])
   \<and> (\<forall>response s. call t = Inr response \<and> candidate_text response = JStr s
         \<and> s \<in> {''Positive'', ''Negative'', ''Neutral''} \<longrightarrow> sentiment_label call t = JStr s)
   \<and> (\<forall>response s. call t = Inr response \<and> candidate_text response = JStr s \<and> trim s \<noteq> []
         \<longrightarrow> sentiment_label call t = JStr (trim s))"
proof (intro conjI impI)
  assume "status (news_top up genAI) = 200"
  then obtain data as items where "up News_latest = Inr data" "field data ''results'' = JArr as"
    "promise_all (map (\<lambda>(i, article). analyze_top (genAI i) article) (enumerate 0 as)) = Inr items"
    "body (news_top up genAI) = JArr items"
    by (rule news_top_200)
  with analyzed_labels [of genAI as items]
  show "\<exists>data as items. up News_latest = Inr data \<and> field data ''results'' = JArr as
         \<and> body (news_top up genAI) = JArr items \<and> length items = length as
         \<and> (\<forall>i<length as.
               field (items ! i) ''sentiment'' = sentiment_label (genAI i) (field (as ! i) ''title''))"
    by blast
next
  assume "status (news_symbol upper up genAI symbol) = 200"
  then obtain data as items where "up (News_for (toUpperCase_text upper symbol)) = Inr data"
    "field data ''results'' = JArr as"
    "promise_all (map (\<lambda>(i, article). analyze_symbol (genAI i) article) (enumerate 0 as)) = Inr items"
    "body (news_symbol upper up genAI symbol) = JArr items"
    by (rule news_symbol_200)
  with analyzed_symbol_labels [of genAI as items]
  show "\<exists>data as items. up (News_for (toUpperCase_text upper symbol)) = Inr data
         \<and> field data ''results'' = JArr as
         \<and> body (news_symbol upper up genAI symbol) = JArr items \<and> length items = length as
         \<and> (\<forall>i<length as.
               field (items ! i) ''sentiment'' = sentiment_label (genAI i) (field (as ! i) ''title''))"
    by blast
next
  show "\<exists>s. sentiment_label call t = JStr s \<and> s \<noteq> []"
    by (rule sentiment_label_nonempty)
next
  show "\<forall>response s. call t = Inr response \<and> candidate_text response = JStr s
         \<and> s \<in> {''Positive'', ''Negative'', ''Neutral''} \<longrightarrow> sentiment_label call t = JStr s"
    using sentiment_label_exact by blast
next
  show "\<forall>response s. call t = Inr response \<and> candidate_text response = JStr s \<and> trim s \<noteq> []
         \<longrightarrow> sentiment_label call t = JStr (trim s)"
    by (simp add: sentiment_label_def)
qed

theorem news_sentiment_is_trimmed_text_witness:
  "status (news_top two_articles_upstream flaky_ai) = 200
   \<and> (\<exists>items. body (news_top two_articles_upstream flaky_ai) = JArr items \<and> length items = 2
         \<and> field (items ! 0) ''sentiment'' = JStr ''Neutral''
         \<and> field (items ! 1) ''sentiment'' = JStr ''Positive'')"
proof -
  note st = two_articles_200(1)
  from news_sentiment_is_trimmed_text
    [of two_articles_upstream flaky_ai toUpperCase "''aapl''" "flaky_ai 0" JNull] st
  obtain data as items where d: "two_articles_upstream News_latest = Inr data"
    and r: "field data ''results'' = JArr as"
    and b: "body (news_top two_articles_upstream flaky_ai) = JArr items"
    and l: "length items = length as"
    and s: "\<forall>i<length as. field (items ! i) ''sentiment'' = sentiment_label (flaky_ai i) (field (as ! i) ''title'')"
    by blast
  from d r have as: "as = [JObj [(''title'', JStr ''Rates rise''), (''article_url'', JStr ''https://example.com/a'')],
             JObj [(''title'', JStr ''Stocks rally''), (''article_url'', JStr ''https://example.com/b'')]]"
    by (auto simp: two_articles_upstream_def)
  from s have "field (items ! 0) ''sentiment'' = sentiment_label (flaky_ai 0) (field (as ! 0) ''title'')"
    and "field (items ! 1) ''sentiment'' = sentiment_label (flaky_ai 1) (field (as ! 1) ''title'')"
    by (simp_all add: as)
  then have "field (items ! 0) ''sentiment'' = JStr ''Neutral''"
    and "field (items ! 1) ''sentiment'' = JStr ''Positive''"
    by (simp_all add: as flaky_labels)
  with st b l show ?thesis by (simp add: as)
qed

text \<open>
  C2, as stated, fails for GET /api/sectors: when the snapshot of one sector fund cannot be
  fetched, the four others succeed and the response is 500 with an error body.
\<close>

theorem sectors_one_failure_fails_all:
  "sector_entry energy_down_upstream (''Technology'', ''XLK'')
     = Inr (JObj [(''name'', JStr ''Technology''), (''changePercent'', JNum 1)])
   \<and> sector_entry energy_down_upstream (''Energy'', ''XLE'') = Inl (AxiosError (Some 500))
   \<and> status (sectors energy_down_upstream) = 500
   \<and> body (sectors energy_down_upstream) = JObj [(''error'', JStr ''Failed to fetch sector data'')]"
  by (simp add: sectors_def sectorETFs_def sector_entry_def energy_down_upstream_def
      js_coalesce_def error_json_def)

text \<open>
  C2, as amended. In the news routes, when upstream returns a non-empty array of articles, the
  status does not depend on the sentiment calls: it is 200 when every article is an object
  whose title can be written into the prompt (it is not \<^verbatim>\<open>null\<close>, and its title is not an
  object that cannot be converted to a string), and 500 otherwise. In the 200 case there is
  one item per article, in order: a failing call leaves its own item with \<open>Neutral\<close> and every
  other item keeps the label of its own call. GET /api/sectors has no fallback for a
  sub-request: it answers 200 exactly when all five snapshots can be read, and 500 as soon as
  one of the calls fails.
\<close>

theorem news_failures_isolated_sectors_fail_whole:
  "(up News_latest = Inr data \<and> field data ''results'' = JArr as \<and> as \<noteq> [] \<longrightarrow>
      status (news_top up genAI) = (if \<forall>a\<in>set as. promptable a then 200 else 500)
      \<and> ((\<forall>a\<in>set as. promptable a) \<longrightarrow>
         (\<exists>items. body (news_top up genAI) = JArr items \<and> length items = length as
            \<and> (\<forall>i<length as.
                  field (items ! i) ''title'' = field (as ! i) ''title''
                  \<and> field (items ! i) ''sentiment'' = sentiment_label (genAI i) (field (as ! i) ''title'')
                  \<and> ((\<exists>e. genAI i (field (as ! i) ''title'') = Inl e) \<longrightarrow>
                        field (items ! i) ''sentiment'' = JStr ''Neutral'')))))
   \<and> (up (News_for (toUpperCase_text upper symbol)) = Inr data' \<and> field data' ''results'' = JArr as'
      \<and> as' \<noteq> [] \<longrightarrow>
      status (news_symbol upper up genAI symbol) = (if \<forall>a\<in>set as'. promptable a then 200 else 500)
      \<and> ((\<forall>a\<in>set as'. promptable a) \<longrightarrow>
         (\<exists>items. body (news_symbol upper up genAI symbol) = JArr items \<and> length items = length as'
            \<and> (\<forall>i<length as'.
                  field (items ! i) ''title'' = field (as' ! i) ''title''
                  \<and> field (items ! i) ''sentiment'' = sentiment_label (genAI i) (field (as' ! i) ''title'')
                  \<and> ((\<exists>e. genAI i (field (as' ! i) ''title'') = Inl e) \<longrightarrow>
                        field (items ! i) ''sentiment'' = JStr ''Neutral'')))))
   \<and> ((status (sectors up) = 200) = (\<forall>etf\<in>set sectorETFs. \<exists>v. sector_entry up etf = Inr v))
   \<and> ((\<exists>etf\<in>set sectorETFs. \<exists>e. up (Snapshot_ticker (snd etf)) = Inl e) \<longrightarrow>
         status (sectors up) = 500)"
  apply (intro conjI impI)
       apply (erule news_top_status)
      apply (erule news_top_items, assumption)
     apply (erule news_symbol_status)
    apply (erule news_symbol_items, assumption)
   apply (simp add: sectors_status)
  apply (erule sectors_failed_call)
  done

theorem news_failures_isolated_sectors_fail_whole_witness:
  "status (news_top two_articles_upstream flaky_ai) = 200
   \<and> (\<exists>items. body (news_top two_articles_upstream flaky_ai) = JArr items \<and> length items = 2
         \<and> field (items ! 0) ''title'' = JStr ''Rates rise''
         \<and> field (items ! 0) ''sentiment'' = JStr ''Neutral''
         \<and> field (items ! 1) ''title'' = JStr ''Stocks rally''
         \<and> field (items ! 1) ''sentiment'' = JStr ''Positive'')
   \<and> status (news_top unprintable_title_upstream flaky_ai) = 500
   \<and> status (sectors energy_down_upstream) = 500"
proof -
  let ?as = "[JObj [(''title'', JStr ''Rates rise''), (''article_url'', JStr ''https://example.com/a'')],
             JObj [(''title'', JStr ''Stocks rally''), (''article_url'', JStr ''https://example.com/b'')]]"
  let ?data = "JObj [(''results'', JArr ?as)]"
  note t = news_failures_isolated_sectors_fail_whole
    [of two_articles_upstream ?data ?as flaky_ai toUpperCase "''aapl''" ?data ?as, THEN conjunct1]
  have h: "two_articles_upstream News_latest = Inr ?data \<and> field ?data ''results'' = JArr ?as
      \<and> ?as \<noteq> []"
    by (simp add: two_articles_upstream_def)
  have p: "\<forall>a\<in>set ?as. promptable a"
    by (simp add: promptable_def)
  from t h have c: "status (news_top two_articles_upstream flaky_ai) = (if \<forall>a\<in>set ?as. promptable a then 200 else 500)
      \<and> ((\<forall>a\<in>set ?as. promptable a) \<longrightarrow>
         (\<exists>items. body (news_top two_articles_upstream flaky_ai) = JArr items \<and> length items = length ?as
            \<and> (\<forall>i<length ?as.
                  field (items ! i) ''title'' = field (?as ! i) ''title''
                  \<and> field (items ! i) ''sentiment'' = sentiment_label (flaky_ai i) (field (?as ! i) ''title'')
                  \<and> ((\<exists>e. flaky_ai i (field (?as ! i) ''title'') = Inl e) \<longrightarrow>
                        field (items ! i) ''sentiment'' = JStr ''Neutral''))))"
    by (rule mp)
  from c [THEN conjunct1] have st: "status (news_top two_articles_upstream flaky_ai) = 200"
    unfolding if_P [OF p] .
  from c [THEN conjunct2] p have "\<exists>items. body (news_top two_articles_upstream flaky_ai) = JArr items \<and> length items = length ?as
            \<and> (\<forall>i<length ?as.
                  field (items ! i) ''title'' = field (?as ! i) ''title''
                  \<and> field (items ! i) ''sentiment'' = sentiment_label (flaky_ai i) (field (?as ! i) ''title'')
                  \<and> ((\<exists>e. flaky_ai i (field (?as ! i) ''title'') = Inl e) \<longrightarrow>
                        field (items ! i) ''sentiment'' = JStr ''Neutral''))"
    by (rule mp)
  then obtain items where b: "body (news_top two_articles_upstream flaky_ai) = JArr items"
    and l: "length items = length ?as"
    and s: "\<forall>i<length ?as.
              field (items ! i) ''title'' = field (?as ! i) ''title''
              \<and> field (items ! i) ''sentiment'' = sentiment_label (flaky_ai i) (field (?as ! i) ''title'')"
    by blast
  from s have "field (items ! 0) ''title'' = JStr ''Rates rise''"
    "field (items ! 0) ''sentiment'' = sentiment_label (flaky_ai 0) (JStr ''Rates rise'')"
    "field (items ! 1) ''title'' = JStr ''Stocks rally''"
    "field (items ! 1) ''sentiment'' = sentiment_label (flaky_ai 1) (JStr ''Stocks rally'')"
    by simp_all
  with b l have n: "\<exists>items. body (news_top two_articles_upstream flaky_ai) = JArr items \<and> length items = 2
         \<and> field (items ! 0) ''title'' = JStr ''Rates rise''
         \<and> field (items ! 0) ''sentiment'' = JStr ''Neutral''
         \<and> field (items ! 1) ''title'' = JStr ''Stocks rally''
         \<and> field (items ! 1) ''sentiment'' = JStr ''Positive''"
    by (simp add: flaky_labels)
  let ?bs = "[JObj [(''title'', JStr ''Rates rise'')], JObj [(''title'', JObj [(''toString'', JNull)])]]"
  let ?page = "JObj [(''results'', JArr ?bs)]"
  have h': "unprintable_title_upstream News_latest = Inr ?page \<and> field ?page ''results'' = JArr ?bs
      \<and> ?bs \<noteq> []"
    by (simp add: unprintable_title_upstream_def)
  have p': "\<not> (\<forall>a\<in>set ?bs. promptable a)"
    by (simp add: promptable_def)
  from news_failures_isolated_sectors_fail_whole
    [of unprintable_title_upstream ?page ?bs flaky_ai toUpperCase "''aapl''" ?page ?bs, THEN conjunct1] h'
  have "status (news_top unprintable_title_upstream flaky_ai) = (if \<forall>a\<in>set ?bs. promptable a then 200 else 500)
      \<and> ((\<forall>a\<in>set ?bs. promptable a) \<longrightarrow>
         (\<exists>items. body (news_top unprintable_title_upstream flaky_ai) = JArr items \<and> length items = length ?bs
            \<and> (\<forall>i<length ?bs.
                  field (items ! i) ''title'' = field (?bs ! i) ''title''
                  \<and> field (items ! i) ''sentiment'' = sentiment_label (flaky_ai i) (field (?bs ! i) ''title'')
                  \<and> ((\<exists>e. flaky_ai i (field (?bs ! i) ''title'') = Inl e) \<longrightarrow>
                        field (items ! i) ''sentiment'' = JStr ''Neutral''))))"
    by (rule mp)
  from this [THEN conjunct1] have u: "status (news_top unprintable_title_upstream flaky_ai) = 500"
    unfolding if_not_P [OF p'] .
  have "\<exists>etf\<in>set sectorETFs. \<exists>e. energy_down_upstream (Snapshot_ticker (snd etf)) = Inl e"
    by (simp add: sectorETFs_def energy_down_upstream_def)
  with news_failures_isolated_sectors_fail_whole
    [of energy_down_upstream ?data ?as flaky_ai toUpperCase "''aapl''" ?data ?as,
      THEN conjunct2, THEN conjunct2, THEN conjunct2]
  have "status (sectors energy_down_upstream) = 500" by (rule mp)
  with st n u show ?thesis by (intro conjI)
qed

subsection \<open>Mover lists\<close>

lemma js_map_mover:
  "(js_map mover ts = Inr result) = ((\<forall>t\<in>set ts. \<not> nullish t) \<and> result = map mover_entry ts)"
proof (induction ts arbitrary: result)
  case Nil
  then show ?case by auto
next
  case (Cons t ts)
  show ?case
  proof (cases "nullish t")
    case True
    then show ?thesis by (simp add: mover_def)
  next
    case False
    then have mt: "mover t = Inr (mover_entry t)" by (simp add: mover_def)
    show ?thesis
    proof (cases "js_map mover ts")
      case (Inl e)
      with Cons.IH [of "map mover_entry ts"] mt False show ?thesis by auto
    next
      case (Inr vs)
      with Cons.IH [of vs] mt False show ?thesis by auto
    qed
  qed
qed

lemma movers_Inr:
  "(movers data = Inr result) =
     (\<exists>ts. field data ''tickers'' = JArr ts \<and> (\<forall>t\<in>set ts. \<not> nullish t) \<and> result = map mover_entry ts)"
proof (cases "nullish data")
  case True
  then show ?thesis by (cases data) (auto simp: movers_def)
next
  case False
  then show ?thesis
    by (cases "field data ''tickers''") (auto simp: movers_def js_map_mover)
qed

lemma volume_numeric:
  assumes "numeric_volume t"
  shows "field (mover_entry t) ''volume'' = JNum (volume_of (mover_entry t))"
proof -
  have "\<exists>n. js_coalesce (opt (field t ''day'') ''v'') (JNum 0) = JNum n"
    using assms by (cases "opt (field t ''day'') ''v''") (auto simp: numeric_volume_def js_coalesce_def)
  then show ?thesis by (auto simp: mover_entry_def volume_of_def)
qed

lemma numeric_no_throw:
  assumes "\<forall>t\<in>set ts. numeric_volume t"
  shows "\<not> (\<exists>e\<in>set (map mover_entry ts). to_primitive_throws (field e ''volume''))"
proof
  assume "\<exists>e\<in>set (map mover_entry ts). to_primitive_throws (field e ''volume'')"
  then obtain t where "t \<in> set ts" and "to_primitive_throws (field (mover_entry t) ''volume'')"
    by auto
  with assms volume_numeric [of t] show False by simp
qed

lemma comes_after_volume:
  assumes "field a ''volume'' = JNum (volume_of a)" and "field b ''volume'' = JNum (volume_of b)"
  shows "comes_after (by_volume conv) a b = (volume_of a < volume_of b)"
  using assms by (simp add: comes_after_def by_volume_def js_minus_def)

lemma js_insert_insort:
  assumes "field a ''volume'' = JNum (volume_of a)"
    and "\<forall>b\<in>set bs. field b ''volume'' = JNum (volume_of b)"
  shows "js_insert (by_volume conv) a bs = insort_key (\<lambda>e. - volume_of e) a bs"
  using assms(2)
proof (induction bs)
  case Nil
  then show ?case by simp
next
  case (Cons b bs)
  then have "comes_after (by_volume conv) a b = (volume_of a < volume_of b)"
    using assms(1) by (simp add: comes_after_volume)
  with Cons show ?case by auto
qed

lemma js_sort_sort_key:
  assumes "\<forall>b\<in>set xs. field b ''volume'' = JNum (volume_of b)"
  shows "js_sort (by_volume conv) xs = sort_key (\<lambda>e. - volume_of e) xs"
  using assms
proof (induction xs)
  case Nil
  then show ?case by (simp add: js_sort_def)
next
  case (Cons x xs)
  then have ih: "foldr (js_insert (by_volume conv)) xs [] = sort_key (\<lambda>e. - volume_of e) xs"
    by (simp add: js_sort_def)
  have "\<forall>b\<in>set (sort_key (\<lambda>e. - volume_of e) xs). field b ''volume'' = JNum (volume_of b)"
    using Cons.prems by simp
  with Cons.prems ih show ?case
    by (simp add: js_sort_def js_insert_insort sort_key_def)
qed

lemma js_sort_by_volume:
  assumes "\<forall>b\<in>set xs. field b ''volume'' = JNum (volume_of b)"
  shows "mset (js_sort (by_volume conv) xs) = mset xs"
    and "sorted_wrt (\<lambda>a b. volume_of b \<le> volume_of a) (js_sort (by_volume conv) xs)"
proof -
  note eq = js_sort_sort_key [OF assms, of conv]
  show "mset (js_sort (by_volume conv) xs) = mset xs"
    by (simp add: eq)
  have "sorted (map (\<lambda>e. - volume_of e) (sort_key (\<lambda>e. - volume_of e) xs))"
    by (rule sorted_sort_key)
  then show "sorted_wrt (\<lambda>a b. volume_of b \<le> volume_of a) (js_sort (by_volume conv) xs)"
    by (simp add: eq sorted_map)
qed

lemma most_active_200:
  assumes "status (most_active conv up) = 200"
  obtains data ts where "up Snapshot_tickers_by_volume = Inr data" and "field data ''tickers'' = JArr ts"
    and "most_active conv up = json (JArr (take 7 (js_sort (by_volume conv) (map mover_entry ts))))"
proof -
  from assms obtain data result where d: "up Snapshot_tickers_by_volume = Inr data"
    and m: "movers data = Inr result"
    by (auto simp: most_active_def error_json_def split: sum.splits)
  from m obtain ts where "field data ''tickers'' = JArr ts" "result = map mover_entry ts"
    by (auto simp: movers_Inr)
  with d m assms
  have "most_active conv up = json (JArr (take 7 (js_sort (by_volume conv) (map mover_entry ts))))"
    by (auto simp: most_active_def error_json_def split: if_splits)
  with d \<open>field data ''tickers'' = JArr ts\<close> show ?thesis using that by blast
qed

lemma top_gainers_200:
  assumes "status (top_gainers up) = 200"
  shows "\<exists>data ts. up Snapshot_gainers = Inr data \<and> field data ''tickers'' = JArr ts
           \<and> body (top_gainers up) = JArr (take 5 (map mover_entry ts))"
proof -
  from assms obtain data result where d: "up Snapshot_gainers = Inr data"
    and m: "movers data = Inr result"
    by (auto simp: top_gainers_def error_json_def split: sum.splits)
  from m obtain ts where "field data ''tickers'' = JArr ts" "result = map mover_entry ts"
    by (auto simp: movers_Inr)
  with d m show ?thesis by (simp add: top_gainers_def json_def)
qed

lemma top_losers_200:
  assumes "status (top_losers up) = 200"
  shows "\<exists>data ts. up Snapshot_losers = Inr data \<and> field data ''tickers'' = JArr ts
           \<and> body (top_losers up) = JArr (take 5 (map mover_entry ts))"
proof -
  from assms obtain data result where d: "up Snapshot_losers = Inr data"
    and m: "movers data = Inr result"
    by (auto simp: top_losers_def error_json_def split: sum.splits)
  from m obtain ts where "field data ''tickers'' = JArr ts" "result = map mover_entry ts"
    by (auto simp: movers_Inr)
  with d m show ?thesis by (simp add: top_losers_def json_def)
qed

lemma nine_entries:
  "map mover_entry nine_tickers =
     map (\<lambda>(n, v). JObj [(''symbol'', JStr n), (''name'', JStr n), (''price'', JNum 0),
                          (''changePercent'', JNum 0), (''volume'', JNum v)])
       [(''A'', 3), (''B'', 9), (''C'', 1), (''D'', 7), (''E'', 5), (''F'', 8), (''G'', 2),
        (''H'', 6), (''I'', 4)]"
  by (simp add: nine_tickers_def ticker_with_volume_def mover_entry_def opt_def js_coalesce_def)

lemma nine_ranked:
  "map volume_of (take 7 (js_sort (by_volume conv_nan) (map mover_entry nine_tickers)))
     = [9, 8, 7, 6, 5, 4, 3]"
  unfolding nine_entries
  by (simp add: js_sort_def comes_after_def by_volume_def js_minus_def volume_of_def)

lemma nine_numeric: "\<forall>t\<in>set nine_tickers. numeric_volume t"
  by (simp add: nine_tickers_def ticker_with_volume_def numeric_volume_def opt_def)

lemma nine_movers: "movers (JObj [(''tickers'', JArr nine_tickers)]) = Inr (map mover_entry nine_tickers)"
  using nine_numeric by (simp add: movers_Inr numeric_volume_def)

text \<open>
  C6. GET /api/most-active answers with at most 7 entries; on a page whose tickers have a
  daily volume that is a number (or is missing, which counts as 0) these are the first 7 of
  the page's entries re-sorted by volume, highest first. GET /api/top-gainers and
  GET /api/top-losers answer with at most 5 entries, the first 5 of the upstream page in
  upstream order.
\<close>

theorem movers_sorted_and_truncated:
  "(status (most_active conv up) = 200 \<longrightarrow>
      (\<exists>entries. body (most_active conv up) = JArr entries \<and> length entries \<le> 7))
   \<and> (up Snapshot_tickers_by_volume = Inr data \<and> field data ''tickers'' = JArr ts
        \<and> (\<forall>t\<in>set ts. numeric_volume t) \<longrightarrow>
      (\<exists>ranked. mset ranked = mset (map mover_entry ts)
         \<and> sorted_wrt (\<lambda>a b. volume_of b \<le> volume_of a) ranked
         \<and> most_active conv up = json (JArr (take 7 ranked))))
   \<and> (status (top_gainers up) = 200 \<longrightarrow>
      (\<exists>page tickers entries. up Snapshot_gainers = Inr page \<and> field page ''tickers'' = JArr tickers
         \<and> body (top_gainers up) = JArr entries \<and> length entries \<le> 5
         \<and> entries = take 5 (map mover_entry tickers)))
   \<and> (status (top_losers up) = 200 \<longrightarrow>
      (\<exists>page tickers entries. up Snapshot_losers = Inr page \<and> field page ''tickers'' = JArr tickers
         \<and> body (top_losers up) = JArr entries \<and> length entries \<le> 5
         \<and> entries = take 5 (map mover_entry tickers)))"
proof (intro conjI impI)
  assume "status (most_active conv up) = 200"
  then obtain d' ts' where
    "most_active conv up = json (JArr (take 7 (js_sort (by_volume conv) (map mover_entry ts'))))"
    by (rule most_active_200)
  then show "\<exists>entries. body (most_active conv up) = JArr entries \<and> length entries \<le> 7"
    by (simp add: json_def)
next
  assume a: "up Snapshot_tickers_by_volume = Inr data \<and> field data ''tickers'' = JArr ts
        \<and> (\<forall>t\<in>set ts. numeric_volume t)"
  then have nn: "\<forall>t\<in>set ts. \<not> nullish t" by (simp add: numeric_volume_def)
  with a have m: "movers data = Inr (map mover_entry ts)" by (simp add: movers_Inr)
  from a have num: "\<forall>b\<in>set (map mover_entry ts). field b ''volume'' = JNum (volume_of b)"
    by (auto simp: volume_numeric)
  let ?ranked = "js_sort (by_volume conv) (map mover_entry ts)"
  from a have "\<forall>t\<in>set ts. numeric_volume t" by simp
  then have "\<not> (\<exists>e\<in>set (map mover_entry ts). to_primitive_throws (field e ''volume''))"
    by (rule numeric_no_throw)
  with a m have "most_active conv up = json (JArr (take 7 ?ranked))"
    by (simp add: most_active_def)
  with js_sort_by_volume [OF num, of conv]
  show "\<exists>ranked. mset ranked = mset (map mover_entry ts)
         \<and> sorted_wrt (\<lambda>a b. volume_of b \<le> volume_of a) ranked
         \<and> most_active conv up = json (JArr (take 7 ranked))"
    by blast
next
  assume "status (top_gainers up) = 200"
  from top_gainers_200 [OF this]
  show "\<exists>page tickers entries. up Snapshot_gainers = Inr page \<and> field page ''tickers'' = JArr tickers
         \<and> body (top_gainers up) = JArr entries \<and> length entries \<le> 5
         \<and> entries = take 5 (map mover_entry tickers)"
    by auto
next
  assume "status (top_losers up) = 200"
  from top_losers_200 [OF this]
  show "\<exists>page tickers entries. up Snapshot_losers = Inr page \<and> field page ''tickers'' = JArr tickers
         \<and> body (top_losers up) = JArr entries \<and> length entries \<le> 5
         \<and> entries = take 5 (map mover_entry tickers)"
    by auto
qed

theorem movers_sorted_and_truncated_witness:
  "status (most_active conv_nan nine_tickers_upstream) = 200
   \<and> list_all numeric_volume nine_tickers
   \<and> (\<exists>entries. body (most_active conv_nan nine_tickers_upstream) = JArr entries
         \<and> length entries \<le> 7 \<and> map volume_of entries = [9, 8, 7, 6, 5, 4, 3])
   \<and> (\<exists>ranked. mset ranked = mset (map mover_entry nine_tickers)
         \<and> sorted_wrt (\<lambda>a b. volume_of b \<le> volume_of a) ranked
         \<and> most_active conv_nan nine_tickers_upstream = json (JArr (take 7 ranked)))
   \<and> status (top_gainers nine_tickers_upstream) = 200
   \<and> (\<exists>entries. body (top_gainers nine_tickers_upstream) = JArr entries \<and> length entries \<le> 5)
   \<and> status (top_losers nine_tickers_upstream) = 200
   \<and> (\<exists>entries. body (top_losers nine_tickers_upstream) = JArr entries \<and> length entries \<le> 5)"
proof -
  let ?data = "JObj [(''tickers'', JArr nine_tickers)]"
  note t = movers_sorted_and_truncated [of conv_nan nine_tickers_upstream ?data nine_tickers]
  have m: "most_active conv_nan nine_tickers_upstream
             = json (JArr (take 7 (js_sort (by_volume conv_nan) (map mover_entry nine_tickers))))"
    using numeric_no_throw [OF nine_numeric]
    by (simp add: most_active_def nine_tickers_upstream_def nine_movers)
  then have s1: "status (most_active conv_nan nine_tickers_upstream) = 200"
    by (simp add: json_def)
  have s2: "status (top_gainers nine_tickers_upstream) = 200"
    by (simp add: top_gainers_def nine_tickers_upstream_def nine_movers json_def)
  have s3: "status (top_losers nine_tickers_upstream) = 200"
    by (simp add: top_losers_def nine_tickers_upstream_def nine_movers json_def)
  have h: "nine_tickers_upstream Snapshot_tickers_by_volume = Inr ?data
      \<and> field ?data ''tickers'' = JArr nine_tickers \<and> (\<forall>t\<in>set nine_tickers. numeric_volume t)"
    using nine_numeric by (simp add: nine_tickers_upstream_def)
  note t1 = t [THEN conjunct1]
  note t2 = t [THEN conjunct2, THEN conjunct1]
  note t3 = t [THEN conjunct2, THEN conjunct2, THEN conjunct1]
  note t4 = t [THEN conjunct2, THEN conjunct2, THEN conjunct2]
  from t1 s1 have "\<exists>entries. body (most_active conv_nan nine_tickers_upstream) = JArr entries
      \<and> length entries \<le> 7"
    by (rule mp)
  then obtain entries where e: "body (most_active conv_nan nine_tickers_upstream) = JArr entries"
    "length entries \<le> 7"
    by (elim exE conjE)
  from e(1) m have "entries = take 7 (js_sort (by_volume conv_nan) (map mover_entry nine_tickers))"
    by (simp add: json_def)
  then have "map volume_of entries = [9, 8, 7, 6, 5, 4, 3]"
    by (simp only: nine_ranked)
  with e have a: "\<exists>entries. body (most_active conv_nan nine_tickers_upstream) = JArr entries
         \<and> length entries \<le> 7 \<and> map volume_of entries = [9, 8, 7, 6, 5, 4, 3]"
    by (intro exI conjI)
  from t2 h have b: "\<exists>ranked. mset ranked = mset (map mover_entry nine_tickers)
         \<and> sorted_wrt (\<lambda>a b. volume_of b \<le> volume_of a) ranked
         \<and> most_active conv_nan nine_tickers_upstream = json (JArr (take 7 ranked))"
    by (rule mp)
  from t3 s2 have "\<exists>page tickers entries. nine_tickers_upstream Snapshot_gainers = Inr page
         \<and> field page ''tickers'' = JArr tickers
         \<and> body (top_gainers nine_tickers_upstream) = JArr entries \<and> length entries \<le> 5
         \<and> entries = take 5 (map mover_entry tickers)"
    by (rule mp)
  then have c: "\<exists>entries. body (top_gainers nine_tickers_upstream) = JArr entries \<and> length entries \<le> 5"
    by (elim exE conjE) (intro exI conjI, assumption+)
  from t4 s3 have "\<exists>page tickers entries. nine_tickers_upstream Snapshot_losers = Inr page
         \<and> field page ''tickers'' = JArr tickers
         \<and> body (top_losers nine_tickers_upstream) = JArr entries \<and> length entries \<le> 5
         \<and> entries = take 5 (map mover_entry tickers)"
    by (rule mp)
  then have d: "\<exists>entries. body (top_losers nine_tickers_upstream) = JArr entries \<and> length entries \<le> 5"
    by (elim exE conjE) (intro exI conjI, assumption+)
  show ?thesis
    apply (intro conjI)
           apply (rule s1)
          apply (simp add: list_all_iff nine_numeric)
         apply (rule a)
        apply (rule b)
       apply (rule s2)
      apply (rule c)
     apply (rule s3)
    apply (rule d)
    done
qed

subsection \<open>Rate limiting\<close>

lemma hits_upto_Cons:
  "hits_upto a (r # rs) (Suc i) = (if counted a r then Suc (hits_upto a rs i) else hits_upto a rs i)"
  "hits_upto a (r # rs) 0 = (if counted a r then 1 else 0)"
  by (simp_all add: hits_upto_def)

lemma step_counted_open:
  assumes "store a = Some (n, reset)" and "counted a r" and "arrival r < reset"
  shows "\<exists>store'. app_use_api opts store r = (store', verdict opts (Suc n))
           \<and> store' a = Some (Suc n, reset)"
  using assms
  by (auto simp: app_use_api_def rateLimit_def increment_def counted_def verdict_def)

lemma step_counted_fresh:
  assumes "no_open_window store a (arrival r)" and "counted a r"
  shows "\<exists>store'. app_use_api opts store r = (store', verdict opts 1)
           \<and> store' a = Some (1, arrival r + windowMs opts)"
  using assms
  by (auto simp: app_use_api_def rateLimit_def increment_def counted_def verdict_def
      no_open_window_def split: option.splits)

lemma step_other:
  assumes "\<not> counted a r"
  shows "\<exists>store' out. app_use_api opts store r = (store', out) \<and> store' a = store a"
  using assms
  by (auto simp: app_use_api_def rateLimit_def increment_def counted_def
      split: option.splits prod.splits)

lemma no_open_window_later: "no_open_window store a t \<Longrightarrow> t \<le> t' \<Longrightarrow> no_open_window store a t'"
  by (auto simp: no_open_window_def split: option.splits)

lemma no_open_window_same: "no_open_window store a t \<Longrightarrow> store' a = store a \<Longrightarrow> no_open_window store' a t"
  by (simp add: no_open_window_def)

lemma serve_open_window:
  assumes "store a = Some (n, reset)"
    and "\<forall>r\<in>set rs. counted a r \<longrightarrow> arrival r < reset"
    and "i < length rs" and "counted a (rs ! i)"
  shows "serve opts store rs ! i = verdict opts (n + hits_upto a rs i)"
  using assms
proof (induction rs arbitrary: store n i)
  case Nil
  then show ?case by simp
next
  case (Cons r rs)
  show ?case
  proof (cases "counted a r")
    case True
    with Cons.prems obtain store' where s: "app_use_api opts store r = (store', verdict opts (Suc n))"
      and s': "store' a = Some (Suc n, reset)"
      using step_counted_open [of store a n reset r opts] by auto
    show ?thesis
    proof (cases i)
      case 0
      with s True show ?thesis by (simp add: hits_upto_Cons)
    next
      case (Suc j)
      with Cons.prems have "j < length rs" "counted a (rs ! j)"
        "\<forall>r\<in>set rs. counted a r \<longrightarrow> arrival r < reset"
        by simp_all
      with Cons.IH [of store' "Suc n" j] s'
      have "serve opts store' rs ! j = verdict opts (Suc n + hits_upto a rs j)"
        by blast
      with s True Suc show ?thesis by (simp add: hits_upto_Cons)
    qed
  next
    case False
    then obtain store' out where s: "app_use_api opts store r = (store', out)"
      and s': "store' a = store a"
      using step_other [of a r opts store] by auto
    from False Cons.prems obtain j where i: "i = Suc j"
      by (cases i) auto
    with Cons.prems have "j < length rs" "counted a (rs ! j)"
      "\<forall>r\<in>set rs. counted a r \<longrightarrow> arrival r < reset" "store' a = Some (n, reset)"
      using s' by simp_all
    with Cons.IH [of store' n j] have "serve opts store' rs ! j = verdict opts (n + hits_upto a rs j)"
      by blast
    with s False i show ?thesis by (simp add: hits_upto_Cons)
  qed
qed

lemma serve_new_window:
  assumes "no_open_window store a t0"
    and "\<forall>r\<in>set rs. counted a r \<longrightarrow> t0 \<le> arrival r \<and> arrival r < t0 + windowMs opts"
    and "i < length rs" and "counted a (rs ! i)"
  shows "serve opts store rs ! i = verdict opts (hits_upto a rs i)"
  using assms
proof (induction rs arbitrary: store i)
  case Nil
  then show ?case by simp
next
  case (Cons r rs)
  show ?case
  proof (cases "counted a r")
    case True
    with Cons.prems have t: "t0 \<le> arrival r" by simp
    with Cons.prems(1) have "no_open_window store a (arrival r)"
      by (rule no_open_window_later)
    with True obtain store' where s: "app_use_api opts store r = (store', verdict opts 1)"
      and s': "store' a = Some (1, arrival r + windowMs opts)"
      using step_counted_fresh [of store a r opts] by auto
    show ?thesis
    proof (cases i)
      case 0
      with s True show ?thesis by (simp add: hits_upto_Cons)
    next
      case (Suc j)
      from t Cons.prems have w: "\<forall>q\<in>set rs. counted a q \<longrightarrow> arrival q < arrival r + windowMs opts"
        by auto
      from Cons.prems Suc have "j < length rs" "counted a (rs ! j)" by simp_all
      with serve_open_window [of store' a 1 "arrival r + windowMs opts" rs j opts] s' w
      have "serve opts store' rs ! j = verdict opts (1 + hits_upto a rs j)" by blast
      with s True Suc show ?thesis by (simp add: hits_upto_Cons)
    qed
  next
    case False
    then obtain store' out where s: "app_use_api opts store r = (store', out)"
      and s': "store' a = store a"
      using step_other [of a r opts store] by auto
    from False Cons.prems obtain j where i: "i = Suc j"
      by (cases i) auto
    from Cons.prems(1) s' have "no_open_window store' a t0"
      by (rule no_open_window_same)
    with i Cons.prems have "j < length rs" "counted a (rs ! j)"
      "\<forall>r\<in>set rs. counted a r \<longrightarrow> t0 \<le> arrival r \<and> arrival r < t0 + windowMs opts"
      "no_open_window store' a t0"
      by simp_all
    with Cons.IH [of store' j] have "serve opts store' rs ! j = verdict opts (hits_upto a rs j)"
      by blast
    with s False i show ?thesis by (simp add: hits_upto_Cons)
  qed
qed

lemma length_serve: "length (serve opts store rs) = length rs"
  by (induction rs arbitrary: store) (auto split: prod.splits)

lemma serve_append:
  "serve opts store (rs @ rs') = serve opts store rs @ serve opts (run_store opts store rs) rs'"
  by (induction rs arbitrary: store) (auto split: prod.splits)

lemma run_store_open:
  assumes "store a = Some (n, reset)"
    and "\<forall>q\<in>set rs. counted a q \<longrightarrow> arrival q < reset"
  shows "run_store opts store rs a = Some (n + length (filter (counted a) rs), reset)"
  using assms
proof (induction rs arbitrary: store n)
  case Nil
  then show ?case by simp
next
  case (Cons r rs)
  show ?case
  proof (cases "counted a r")
    case True
    with Cons.prems obtain store' where s: "app_use_api opts store r = (store', verdict opts (Suc n))"
      and s': "store' a = Some (Suc n, reset)"
      using step_counted_open [of store a n reset r opts] by auto
    from Cons.prems have "\<forall>q\<in>set rs. counted a q \<longrightarrow> arrival q < reset" by simp
    from Cons.IH [of store' "Suc n", OF s' this] s True show ?thesis by simp
  next
    case False
    then obtain store' out where s: "app_use_api opts store r = (store', out)"
      and s': "store' a = store a"
      using step_other [of a r opts store] by auto
    with Cons.prems have "store' a = Some (n, reset)"
      and "\<forall>q\<in>set rs. counted a q \<longrightarrow> arrival q < reset"
      by simp_all
    from Cons.IH [of store' n, OF this] s False show ?thesis by simp
  qed
qed

lemma run_store_new_window:
  assumes "counted a r" and "no_open_window store a (arrival r)"
    and "\<forall>q\<in>set rs. counted a q \<longrightarrow> arrival q < arrival r + windowMs opts"
  shows "run_store opts store (r # rs) a
           = Some (Suc (length (filter (counted a) rs)), arrival r + windowMs opts)"
proof -
  from assms(1,2) obtain store' where s: "app_use_api opts store r = (store', verdict opts 1)"
    and s': "store' a = Some (1, arrival r + windowMs opts)"
    using step_counted_fresh [of store a r opts] by auto
  from run_store_open [of store' a 1 "arrival r + windowMs opts" rs opts, OF s' assms(3)] s
  show ?thesis by simp
qed

lemma serve_next_window:
  assumes "counted a r" and "no_open_window store a (arrival r)"
    and "\<forall>q\<in>set rs. counted a q \<longrightarrow> arrival q < arrival r + windowMs opts"
    and "arrival r + windowMs opts \<le> t1"
    and "\<forall>q\<in>set rs'. counted a q \<longrightarrow> t1 \<le> arrival q \<and> arrival q < t1 + windowMs opts"
    and "i < length rs'" and "counted a (rs' ! i)"
  shows "serve opts store (r # rs @ rs') ! (Suc (length rs + i)) = verdict opts (hits_upto a rs' i)"
proof -
  let ?store = "run_store opts store (r # rs)"
  have "serve opts store (r # rs @ rs') = serve opts store (r # rs) @ serve opts ?store rs'"
    using serve_append [of opts store "r # rs" rs'] by simp
  moreover have "length (serve opts store (r # rs)) = Suc (length rs)"
    by (simp only: length_serve) simp
  ultimately have n: "serve opts store (r # rs @ rs') ! (Suc (length rs + i)) = serve opts ?store rs' ! i"
    by (simp only: nth_append) simp
  from run_store_new_window [OF assms(1-3)] assms(4) have "no_open_window ?store a t1"
    by (simp add: no_open_window_def)
  from serve_new_window [OF this assms(5-7)] n show ?thesis by simp
qed

lemma four_counted:
  "counted ''10.0.0.1'' (four_requests ! 0)" "\<not> counted ''10.0.0.1'' (four_requests ! 1)"
  "counted ''10.0.0.1'' (four_requests ! 2)" "counted ''10.0.0.1'' (four_requests ! 3)"
  "counted ''10.0.0.1'' fifth_request"
  by (simp_all add: four_requests_def fifth_request_def counted_def under_api_def toUpperCase_def
      upper_char_def)

lemma four_in_window:
  "\<forall>r\<in>set four_requests. counted ''10.0.0.1'' r \<longrightarrow>
     1000 \<le> arrival r \<and> arrival r < 1000 + windowMs (apiLimiter\<lparr>max_hits := 2\<rparr>)"
  by (simp add: four_requests_def apiLimiter_def)

lemma four_hits:
  "hits_upto ''10.0.0.1'' four_requests 2 = 2" "hits_upto ''10.0.0.1'' four_requests 3 = 3"
  "hits_upto ''10.0.0.1'' [fifth_request] 0 = 1"
  by (simp_all add: hits_upto_def four_requests_def fifth_request_def counted_def under_api_def
      toUpperCase_def upper_char_def)

text \<open>
  C9. All requests under /api go through the one limiter, which counts per client and not per
  route. The window is fixed: it opens with the first request of a client that has no open
  window (one never seen, or one whose window has ended) and ends \<open>windowMs\<close> milliseconds
  later, whatever arrives in between. Inside a window (with any requests of other clients and
  of other paths in between) the request that is hit number \<open>k\<close> of the client is passed to
  its handler when \<open>k\<close> is at most the cap and is answered 429 with the static message when it
  is above; the standard headers are set and the legacy ones are not. A request that arrives
  when the window has ended is hit number 1 of a new window, however many hits the old one
  had. The window of \<open>apiLimiter\<close> is 10 minutes and its cap is 500.
\<close>

theorem api_limiter_fixed_window:
  "(no_open_window store a t0
      \<and> (\<forall>r\<in>set rs. counted a r \<longrightarrow> t0 \<le> arrival r \<and> arrival r < t0 + windowMs opts)
      \<and> i < length rs \<and> counted a (rs ! i) \<longrightarrow>
        serve opts store rs ! i =
          (if hits_upto a rs i \<le> max_hits opts then Handled (rate_headers opts)
           else Rejected 429 (message opts) (rate_headers opts)))
   \<and> (store a = Some (n, reset)
      \<and> (\<forall>r\<in>set rs. counted a r \<longrightarrow> arrival r < reset)
      \<and> i < length rs \<and> counted a (rs ! i) \<longrightarrow>
        serve opts store rs ! i =
          (if n + hits_upto a rs i \<le> max_hits opts then Handled (rate_headers opts)
           else Rejected 429 (message opts) (rate_headers opts)))
   \<and> (counted a r \<and> no_open_window store a (arrival r)
      \<and> (\<forall>q\<in>set rs. counted a q \<longrightarrow> arrival q < arrival r + windowMs opts) \<longrightarrow>
        run_store opts store (r # rs) a
          = Some (Suc (length (filter (counted a) rs)), arrival r + windowMs opts))
   \<and> (counted a r \<and> no_open_window store a (arrival r)
      \<and> (\<forall>q\<in>set rs. counted a q \<longrightarrow> arrival q < arrival r + windowMs opts)
      \<and> arrival r + windowMs opts \<le> t1
      \<and> (\<forall>q\<in>set rs'. counted a q \<longrightarrow> t1 \<le> arrival q \<and> arrival q < t1 + windowMs opts)
      \<and> j < length rs' \<and> counted a (rs' ! j) \<longrightarrow>
        serve opts store (r # rs @ rs') ! (Suc (length rs + j)) =
          (if hits_upto a rs' j \<le> max_hits opts then Handled (rate_headers opts)
           else Rejected 429 (message opts) (rate_headers opts)))
   \<and> serve opts store (rs @ rs') = serve opts store rs @ serve opts (run_store opts store rs) rs'
   \<and> windowMs apiLimiter = 600000
   \<and> max_hits apiLimiter = 500
   \<and> rate_headers apiLimiter = [Standard]"
proof (intro conjI impI)
  assume "no_open_window store a t0
      \<and> (\<forall>r\<in>set rs. counted a r \<longrightarrow> t0 \<le> arrival r \<and> arrival r < t0 + windowMs opts)
      \<and> i < length rs \<and> counted a (rs ! i)"
  then have "serve opts store rs ! i = verdict opts (hits_upto a rs i)"
    using serve_new_window [of store a t0 rs opts i] by blast
  then show "serve opts store rs ! i =
          (if hits_upto a rs i \<le> max_hits opts then Handled (rate_headers opts)
           else Rejected 429 (message opts) (rate_headers opts))"
    by (simp add: verdict_def)
next
  assume "store a = Some (n, reset)
      \<and> (\<forall>r\<in>set rs. counted a r \<longrightarrow> arrival r < reset)
      \<and> i < length rs \<and> counted a (rs ! i)"
  then have "serve opts store rs ! i = verdict opts (n + hits_upto a rs i)"
    using serve_open_window [of store a n reset rs i opts] by blast
  then show "serve opts store rs ! i =
          (if n + hits_upto a rs i \<le> max_hits opts then Handled (rate_headers opts)
           else Rejected 429 (message opts) (rate_headers opts))"
    by (simp add: verdict_def)
next
  assume "counted a r \<and> no_open_window store a (arrival r)
      \<and> (\<forall>q\<in>set rs. counted a q \<longrightarrow> arrival q < arrival r + windowMs opts)"
  then show "run_store opts store (r # rs) a
          = Some (Suc (length (filter (counted a) rs)), arrival r + windowMs opts)"
    using run_store_new_window [of a r store rs opts] by blast
next
  assume "counted a r \<and> no_open_window store a (arrival r)
      \<and> (\<forall>q\<in>set rs. counted a q \<longrightarrow> arrival q < arrival r + windowMs opts)
      \<and> arrival r + windowMs opts \<le> t1
      \<and> (\<forall>q\<in>set rs'. counted a q \<longrightarrow> t1 \<le> arrival q \<and> arrival q < t1 + windowMs opts)
      \<and> j < length rs' \<and> counted a (rs' ! j)"
  then have "serve opts store (r # rs @ rs') ! (Suc (length rs + j)) = verdict opts (hits_upto a rs' j)"
    using serve_next_window [of a r store rs opts t1 rs' j] by blast
  then show "serve opts store (r # rs @ rs') ! (Suc (length rs + j)) =
          (if hits_upto a rs' j \<le> max_hits opts then Handled (rate_headers opts)
           else Rejected 429 (message opts) (rate_headers opts))"
    by (simp add: verdict_def)
next
  show "serve opts store (rs @ rs') = serve opts store rs @ serve opts (run_store opts store rs) rs'"
    by (rule serve_append)
qed (simp_all add: apiLimiter_def rate_headers_def)

theorem api_limiter_fixed_window_witness:
  "serve (apiLimiter\<lparr>max_hits := 2\<rparr>) Map.empty (four_requests @ [fifth_request]) ! 2 = Handled [Standard]
   \<and> serve (apiLimiter\<lparr>max_hits := 2\<rparr>) Map.empty (four_requests @ [fifth_request]) ! 3
        = Rejected 429 (message apiLimiter) [Standard]
   \<and> serve (apiLimiter\<lparr>max_hits := 2\<rparr>) Map.empty (four_requests @ [fifth_request]) ! 4 = Handled [Standard]
   \<and> run_store (apiLimiter\<lparr>max_hits := 2\<rparr>) Map.empty four_requests ''10.0.0.1'' = Some (3, 601000)"
proof -
  let ?opts = "apiLimiter\<lparr>max_hits := 2\<rparr>"
  let ?a = "''10.0.0.1''"
  let ?r = "\<lparr>ip = ''10.0.0.1'', path = [''api'', ''market-status''], arrival = 1000\<rparr>"
  let ?rs = "[\<lparr>ip = ''10.0.0.2'', path = [''api'', ''sectors''], arrival = 1500\<rparr>,
      \<lparr>ip = ''10.0.0.1'', path = [''api'', ''quote'', ''AAPL''], arrival = 2000\<rparr>,
      \<lparr>ip = ''10.0.0.1'', path = [''api'', ''sectors''], arrival = 599999\<rparr>]"
  have four: "four_requests = ?r # ?rs" by (simp add: four_requests_def)
  have len: "length four_requests = 4" by (simp add: four_requests_def)
  have hs: "rate_headers ?opts = [Standard]" "message ?opts = message apiLimiter" "max_hits ?opts = 2"
    by (simp_all add: rate_headers_def apiLimiter_def)
  note t = api_limiter_fixed_window [where store = Map.empty and a = ?a and ?t0.0 = 1000
      and rs = four_requests and opts = ?opts and rs' = "[fifth_request]"]
  note t2 = t [where i = 2, THEN conjunct1]
  note t3 = t [where i = 3, THEN conjunct1]
  note t5 = t [THEN conjunct2, THEN conjunct2, THEN conjunct2, THEN conjunct2, THEN conjunct1]
  note u = api_limiter_fixed_window [where store = Map.empty and a = ?a and r = ?r and rs = ?rs
      and opts = ?opts and ?t1.0 = 601000 and rs' = "[fifth_request]" and j = 0]
  note u3 = u [THEN conjunct2, THEN conjunct2, THEN conjunct1]
  note u4 = u [THEN conjunct2, THEN conjunct2, THEN conjunct2, THEN conjunct1]
  have h2: "no_open_window Map.empty ?a 1000
      \<and> (\<forall>r\<in>set four_requests. counted ?a r \<longrightarrow>
            1000 \<le> arrival r \<and> arrival r < 1000 + windowMs ?opts)
      \<and> 2 < length four_requests \<and> counted ?a (four_requests ! 2)"
    using four_in_window four_counted(3) len by (simp add: no_open_window_def)
  have h3: "no_open_window Map.empty ?a 1000
      \<and> (\<forall>r\<in>set four_requests. counted ?a r \<longrightarrow>
            1000 \<le> arrival r \<and> arrival r < 1000 + windowMs ?opts)
      \<and> 3 < length four_requests \<and> counted ?a (four_requests ! 3)"
    using four_in_window four_counted(4) len by (simp add: no_open_window_def)
  have w: "counted ?a ?r \<and> no_open_window Map.empty ?a (arrival ?r)
      \<and> (\<forall>q\<in>set ?rs. counted ?a q \<longrightarrow> arrival q < arrival ?r + windowMs ?opts)"
    by (simp add: counted_def under_api_def toUpperCase_def upper_char_def no_open_window_def
        apiLimiter_def)
  have w': "arrival ?r + windowMs ?opts \<le> 601000
      \<and> (\<forall>q\<in>set [fifth_request]. counted ?a q \<longrightarrow>
            601000 \<le> arrival q \<and> arrival q < 601000 + windowMs ?opts)
      \<and> 0 < length [fifth_request] \<and> counted ?a ([fifth_request] ! 0)"
    using four_counted(5) by (simp add: apiLimiter_def fifth_request_def)
  from w w' have h4: "counted ?a ?r \<and> no_open_window Map.empty ?a (arrival ?r)
      \<and> (\<forall>q\<in>set ?rs. counted ?a q \<longrightarrow> arrival q < arrival ?r + windowMs ?opts)
      \<and> arrival ?r + windowMs ?opts \<le> 601000
      \<and> (\<forall>q\<in>set [fifth_request]. counted ?a q \<longrightarrow>
            601000 \<le> arrival q \<and> arrival q < 601000 + windowMs ?opts)
      \<and> 0 < length [fifth_request] \<and> counted ?a ([fifth_request] ! 0)"
    by (elim conjE) (intro conjI, assumption+)
  have split: "serve ?opts Map.empty (four_requests @ [fifth_request]) ! k
                 = serve ?opts Map.empty four_requests ! k" if "k < 4" for k
    using that unfolding t5 by (simp add: nth_append length_serve len)
  from t2 h2 have "serve ?opts Map.empty four_requests ! 2 =
          (if hits_upto ?a four_requests 2 \<le> max_hits ?opts then Handled (rate_headers ?opts)
           else Rejected 429 (message ?opts) (rate_headers ?opts))"
    by (rule mp)
  then have "serve ?opts Map.empty four_requests ! 2 = Handled [Standard]"
    by (simp only: four_hits hs) simp
  then have a: "serve ?opts Map.empty (four_requests @ [fifth_request]) ! 2 = Handled [Standard]"
    by (simp only: split [of 2]) 
  from t3 h3 have "serve ?opts Map.empty four_requests ! 3 =
          (if hits_upto ?a four_requests 3 \<le> max_hits ?opts then Handled (rate_headers ?opts)
           else Rejected 429 (message ?opts) (rate_headers ?opts))"
    by (rule mp)
  then have "serve ?opts Map.empty four_requests ! 3 = Rejected 429 (message apiLimiter) [Standard]"
    by (simp only: four_hits hs) simp
  then have b: "serve ?opts Map.empty (four_requests @ [fifth_request]) ! 3
        = Rejected 429 (message apiLimiter) [Standard]"
    by (simp only: split [of 3])
  have idx: "Suc (length ?rs + 0) = 4" by simp
  have run: "?r # ?rs @ [fifth_request] = four_requests @ [fifth_request]" by (simp add: four)
  have v: "(if hits_upto ?a [fifth_request] 0 \<le> max_hits ?opts then Handled (rate_headers ?opts)
           else Rejected 429 (message ?opts) (rate_headers ?opts)) = Handled [Standard]"
    by (simp only: four_hits hs) simp
  from u4 h4 have "serve ?opts Map.empty (?r # ?rs @ [fifth_request]) ! (Suc (length ?rs + 0)) =
          (if hits_upto ?a [fifth_request] 0 \<le> max_hits ?opts then Handled (rate_headers ?opts)
           else Rejected 429 (message ?opts) (rate_headers ?opts))"
    by (rule mp)
  then have c: "serve ?opts Map.empty (four_requests @ [fifth_request]) ! 4 = Handled [Standard]"
    unfolding v idx run .
  from u3 w have "run_store ?opts Map.empty (?r # ?rs) ?a
          = Some (Suc (length (filter (counted ?a) ?rs)), arrival ?r + windowMs ?opts)"
    by (rule mp)
  then have d: "run_store ?opts Map.empty four_requests ?a = Some (3, 601000)"
    by (simp add: four counted_def under_api_def toUpperCase_def upper_char_def apiLimiter_def)
  from a b c d show ?thesis by (intro conjI)
qed

end
